theory Spec2Isabelle
  imports Complex_Main "HOL-Library.AList"
begin

section \<open>Data model (models.py)\<close>

text \<open>
  Python strings are modelled as \<open>string\<close>; \<open>str | None\<close> as \<open>string option\<close>.
  The string-valued enums are datatypes, with their \<open>.value\<close> given by a function.
\<close>

datatype TaskState =
  NEW | CLARIFYING | WAIT_APPROVAL | RUNNING | TESTING | DONE | FAILED | CANCELLED

fun state_value :: "TaskState \<Rightarrow> string" where
  "state_value NEW = ''NEW''"
| "state_value CLARIFYING = ''CLARIFYING''"
| "state_value WAIT_APPROVAL = ''WAIT_APPROVAL''"
| "state_value RUNNING = ''RUNNING''"
| "state_value TESTING = ''TESTING''"
| "state_value DONE = ''DONE''"
| "state_value FAILED = ''FAILED''"
| "state_value CANCELLED = ''CANCELLED''"

datatype QuestionStatus = OPEN | ANSWERED

datatype StepType = CODE | TEST

datatype StepStatus = Step_PENDING | Step_RUNNING | Step_COMPLETED | Step_FAILED

text \<open>
  Values of type \<open>Any\<close> / \<open>object\<close> (event payloads, test results, agent output) are
  JSON-like values. A \<open>dict\<close> keeps insertion order, so it is an association list
  with distinct keys, updated with \<open>AList.update\<close>. A float is either a finite
  rational or one of the three special values.
\<close>

datatype pyfloat = Finite rat | PosInf | NegInf | NaN

datatype jv =
  JNull | JBool bool | JInt int | JFloat pyfloat | JStr string
  | JList "jv list" | JObj "(string \<times> jv) list"

type_synonym pydict = "(string \<times> jv) list"

record PlanQuestion =
  q_id :: string
  question :: string
  q_required :: bool
  q_status :: QuestionStatus
  answer :: "jv"

record PlanStep =
  s_id :: string
  step_type :: StepType
  s_title :: string
  command :: "string option"
  s_status :: StepStatus

record PlanConstraints =
  allowed_paths :: "string list"
  forbidden_paths :: "string list"
  max_files_changed :: int

record Plan =
  plan_id :: string
  plan_task_id :: string
  version :: int
  goal :: string
  assumptions :: "jv list"
  constraints :: PlanConstraints
  questions :: "PlanQuestion list"
  steps :: "PlanStep list"
  approval_gate_before_run :: bool
  approval_gate_before_commit :: bool
  plan_created_at :: string
  created_by :: string

record Approval =
  required :: bool
  approved_by :: "string option"
  approved_at :: "string option"

record ExecutionInfo =
  attempt :: int
  max_attempts :: int
  last_error :: "string option"

record TaskArtifacts =
  clarify_summary :: "string option"
  diff_path :: "string option"
  test_report_path :: "string option"
  pr_url :: "string option"
  changed_files :: "string list"
  test_results :: "pydict list"

record TaskSource =
  src_type :: string
  user_id :: string
  chat_id :: string
  message_id :: string

record RepoContext =
  repo_name :: string
  base_branch :: string
  worktree_path :: "string option"
  branch :: "string option"

record TaskEvent =
  timestamp :: string
  event_type :: string
  message :: string
  payload :: pydict

record Task =
  task_id :: string
  title :: string
  description :: string
  source :: TaskSource
  repo :: RepoContext
  state :: TaskState
  approval :: Approval
  plan :: "Plan option"
  execution :: ExecutionInfo
  artifacts :: TaskArtifacts
  event_log :: "TaskEvent list"
  created_at :: string
  updated_at :: string

text \<open>Truthiness of a \<open>str | None\<close>: \<open>None\<close> and the empty string are falsy.\<close>

fun truthy_str :: "string option \<Rightarrow> bool" where
  "truthy_str None = False"
| "truthy_str (Some s) = (s \<noteq> [])"

text \<open>\<open>Plan.open_required_questions\<close>\<close>

definition open_required_questions :: "Plan \<Rightarrow> PlanQuestion list" where
  "open_required_questions p =
     filter (\<lambda>q. q_required q \<and> q_status q = OPEN) (questions p)"

text \<open>\<open>Approval.is_approved\<close>\<close>

definition is_approved :: "Approval \<Rightarrow> bool" where
  "is_approved a =
     (if \<not> required a then True
      else truthy_str (approved_by a) \<and> truthy_str (approved_at a))"

text \<open>
  \<open>Task.record_event\<close> reads the clock twice (\<open>utc_now_iso()\<close> for the event's
  timestamp, then for \<open>updated_at\<close>); the two readings are the parameters \<open>t1\<close>, \<open>t2\<close>.
  A payload of \<open>None\<close> (or an empty dict) is stored as the empty dict.
\<close>

definition record_event ::
  "string \<Rightarrow> string \<Rightarrow> string \<Rightarrow> string \<Rightarrow> pydict option \<Rightarrow> Task \<Rightarrow> Task" where
  "record_event t1 t2 etype msg pl task =
     task\<lparr>event_log := event_log task @
             [\<lparr>timestamp = t1, event_type = etype, message = msg,
               payload = (case pl of None \<Rightarrow> [] | Some d \<Rightarrow> d)\<rparr>],
          updated_at := t2\<rparr>"

section \<open>Exceptions (exceptions.py)\<close>

text \<open>
  Every exception carries its message (\<open>str(exc)\<close>). \<open>OtherException\<close> stands for any
  other subclass of \<open>Exception\<close> raised by an injected collaborator.
\<close>

datatype error =
  OrchestratorError string
  | InvalidTransitionError string
  | PlanValidationError string
  | PolicyViolationError string
  | TaskNotFoundError string
  | OtherException string

fun str_exc :: "error \<Rightarrow> string" where
  "str_exc (OrchestratorError m) = m"
| "str_exc (InvalidTransitionError m) = m"
| "str_exc (PlanValidationError m) = m"
| "str_exc (PolicyViolationError m) = m"
| "str_exc (TaskNotFoundError m) = m"
| "str_exc (OtherException m) = m"

text \<open>\<open>isinstance(exc, OrchestratorError)\<close>: the first five classes derive from it.\<close>

fun is_OrchestratorError :: "error \<Rightarrow> bool" where
  "is_OrchestratorError (OtherException m) = False"
| "is_OrchestratorError e = True"

fun is_InvalidTransition :: "error \<Rightarrow> bool" where
  "is_InvalidTransition (InvalidTransitionError m) = True"
| "is_InvalidTransition e = False"

text \<open>\<open>sep.join(xs)\<close>\<close>

fun join :: "string \<Rightarrow> string list \<Rightarrow> string" where
  "join sep [] = []"
| "join sep [x] = x"
| "join sep (x # y # ys) = x @ sep @ join sep (y # ys)"

section \<open>State machine (state\_machine.py)\<close>

fun ALLOWED_TRANSITIONS :: "TaskState \<Rightarrow> TaskState set" where
  "ALLOWED_TRANSITIONS NEW = {CLARIFYING, FAILED, CANCELLED}"
| "ALLOWED_TRANSITIONS CLARIFYING = {WAIT_APPROVAL, FAILED, CANCELLED}"
| "ALLOWED_TRANSITIONS WAIT_APPROVAL = {RUNNING, FAILED, CANCELLED}"
| "ALLOWED_TRANSITIONS RUNNING = {TESTING, FAILED, CANCELLED}"
| "ALLOWED_TRANSITIONS TESTING = {DONE, FAILED, CANCELLED}"
| "ALLOWED_TRANSITIONS FAILED = {RUNNING, CANCELLED}"
| "ALLOWED_TRANSITIONS DONE = {}"
| "ALLOWED_TRANSITIONS CANCELLED = {}"

text \<open>
  \<open>assert_transition\<close> returns \<open>None\<close> or raises; it does not change the task.
  The checks are in the order of the source.
\<close>

definition assert_transition :: "Task \<Rightarrow> TaskState \<Rightarrow> error option" where
  "assert_transition task target =
     (if target \<notin> ALLOWED_TRANSITIONS (state task) then
        Some (InvalidTransitionError
          (''Invalid transition: '' @ state_value (state task) @ '' -> '' @ state_value target))
      else if target = RUNNING \<and> required (approval task) \<and> \<not> is_approved (approval task) then
        Some (InvalidTransitionError ''Task approval is required before RUNNING'')
      else if target = RUNNING \<and> plan task = None then
        Some (InvalidTransitionError ''Task plan is required before RUNNING'')
      else if target = RUNNING \<and> open_required_questions (the (plan task)) \<noteq> [] then
        Some (InvalidTransitionError
          (''Open required questions remain: '' @
             join '', '' (map q_id (open_required_questions (the (plan task))))))
      else if target = TESTING \<and> \<not> truthy_str (diff_path (artifacts task)) then
        Some (InvalidTransitionError ''Diff artifact is required before TESTING'')
      else if target = DONE \<and> \<not> truthy_str (test_report_path (artifacts task)) then
        Some (InvalidTransitionError ''Test report is required before DONE'')
      else None)"

text \<open>\<open>dict.update(other)\<close>: the items of \<open>other\<close> are stored in order.\<close>

definition dict_update :: "pydict \<Rightarrow> pydict \<Rightarrow> pydict" where
  "dict_update d other = fold (\<lambda>(k, v) acc. AList.update k v acc) other d"

text \<open>
  \<open>transition\<close> mutates the task in place and returns \<open>None\<close>, or raises. The model
  returns the exception raised, if any, and the task as it is after the call.
\<close>

definition transition ::
  "string \<Rightarrow> string \<Rightarrow> Task \<Rightarrow> TaskState \<Rightarrow> string \<Rightarrow> string \<Rightarrow> pydict option
     \<Rightarrow> error option \<times> Task" where
  "transition t1 t2 task target etype msg pl =
     (case assert_transition task target of
        Some e \<Rightarrow> (Some e, task)
      | None \<Rightarrow>
          (let previous = state task;
               task1 = task\<lparr>state := target\<rparr>;
               event_payload = [(''from'', JStr (state_value previous)),
                                (''to'', JStr (state_value target))];
               event_payload' = (case pl of
                                   None \<Rightarrow> event_payload
                                 | Some d \<Rightarrow> if d \<noteq> [] then dict_update event_payload d
                                            else event_payload)
           in (None, record_event t1 t2 etype msg (Some event_payload') task1)))"

text \<open>The table as the specification prints it, as a relation on states.\<close>

definition table_permits :: "TaskState \<Rightarrow> TaskState \<Rightarrow> bool" where
  "table_permits s t =
     ((s = NEW \<and> t \<in> {CLARIFYING, FAILED, CANCELLED}) \<or>
      (s = CLARIFYING \<and> t \<in> {WAIT_APPROVAL, FAILED, CANCELLED}) \<or>
      (s = WAIT_APPROVAL \<and> t \<in> {RUNNING, FAILED, CANCELLED}) \<or>
      (s = RUNNING \<and> t \<in> {TESTING, FAILED, CANCELLED}) \<or>
      (s = TESTING \<and> t \<in> {DONE, FAILED, CANCELLED}) \<or>
      (s = FAILED \<and> t \<in> {RUNNING, CANCELLED}))"

section \<open>Strings\<close>

text \<open>
  A \<open>char\<close> is a code point below 256. \<open>str.isspace\<close> on that range holds for the
  code points 9 to 13, 28 to 32, 133 and 160.
\<close>

definition py_isspace :: "char \<Rightarrow> bool" where
  "py_isspace c =
     (let n = (of_char c :: nat)
      in (9 \<le> n \<and> n \<le> 13) \<or> (28 \<le> n \<and> n \<le> 32) \<or> n = 133 \<or> n = 160)"

text \<open>\<open>str.strip()\<close>\<close>

definition strip :: "string \<Rightarrow> string" where
  "strip s = rev (dropWhile py_isspace (rev (dropWhile py_isspace s)))"

text \<open>\<open>str(n)\<close> for an integer: decimal digits, with a minus sign when negative.\<close>

definition digit_char :: "nat \<Rightarrow> char" where
  "digit_char d = ''0123456789'' ! d"

function str_nat :: "nat \<Rightarrow> string" where
  "str_nat n = (if n < 10 then [digit_char n] else str_nat (n div 10) @ [digit_char (n mod 10)])"
  by pat_completeness auto
termination
  by (relation "measure id") auto

definition str_int :: "int \<Rightarrow> string" where
  "str_int i = (if i < 0 then CHR ''-'' # str_nat (nat (- i)) else str_nat (nat i))"

section \<open>File-change policy (policy.py)\<close>

text \<open>
  \<open>fnmatch.fnmatch\<close> belongs to the Python library. The policy takes it as the
  parameter \<open>fnm\<close> (name first, pattern second).
\<close>

type_synonym fnmatch_fun = "string \<Rightarrow> string \<Rightarrow> bool"

definition matches_any :: "fnmatch_fun \<Rightarrow> string \<Rightarrow> string list \<Rightarrow> bool" where
  "matches_any fnm path patterns = list_ex (\<lambda>pattern. fnm path pattern) patterns"

text \<open>\<open>file_path.replace("\\", "/")\<close>; the backslash is \<open>CHR 0x5C\<close>.\<close>

definition normalize_path :: "string \<Rightarrow> string" where
  "normalize_path file_path = map (\<lambda>c. if c = CHR 0x5C then CHR ''/'' else c) file_path"

text \<open>The loop over the changed files: for each file, the forbidden check, then the allowed check.\<close>

fun check_files :: "fnmatch_fun \<Rightarrow> PlanConstraints \<Rightarrow> string list \<Rightarrow> error option" where
  "check_files fnm c [] = None"
| "check_files fnm c (file_path # rest) =
     (let normalized = normalize_path file_path
      in if forbidden_paths c \<noteq> [] \<and> matches_any fnm normalized (forbidden_paths c) then
           Some (PolicyViolationError (''File is forbidden by policy: '' @ normalized))
         else if allowed_paths c \<noteq> [] \<and> \<not> matches_any fnm normalized (allowed_paths c) then
           Some (PolicyViolationError (''File is outside allowed paths: '' @ normalized))
         else check_files fnm c rest)"

definition enforce_file_policy ::
  "fnmatch_fun \<Rightarrow> string list \<Rightarrow> PlanConstraints \<Rightarrow> error option" where
  "enforce_file_policy fnm changed c =
     (if int (length changed) > max_files_changed c then
        Some (PolicyViolationError
          (''Changed files exceeded max_files_changed: '' @ str_int (int (length changed)) @
           '' > '' @ str_int (max_files_changed c)))
      else check_files fnm c changed)"

text \<open>
  The shell-wildcard matching of \<open>fnmatch\<close> for a pattern without a bracket
  expression: \<open>*\<close> matches any run of characters (also \<open>/\<close>), \<open>?\<close> any one character,
  every other character itself, and the whole name must be matched.
\<close>

function glob_match :: "string \<Rightarrow> string \<Rightarrow> bool" where
  "glob_match [] name = (name = [])"
| "glob_match (p # ps) [] = (p = CHR ''*'' \<and> glob_match ps [])"
| "glob_match (p # ps) (x # xs) =
     (if p = CHR ''*'' then glob_match ps (x # xs) \<or> glob_match (p # ps) xs
      else if p = CHR ''?'' then glob_match ps xs
      else p = x \<and> glob_match ps xs)"
  by pat_completeness auto
termination
  by (relation "measure (\<lambda>(pat, name). length pat + length name)") auto

text \<open>
  \<open>fnmatch\<close> on a POSIX host, where \<open>os.path.normcase\<close> is the identity. What a
  pattern with a bracket expression matches is left to the parameter \<open>bracket\<close>.
\<close>

definition fnmatch :: "fnmatch_fun \<Rightarrow> fnmatch_fun" where
  "fnmatch bracket name pat =
     (if CHR ''['' \<in> set pat then bracket name pat else glob_match pat name)"

text \<open>The three rules as the specification words them.\<close>

definition spec_policy_ok :: "fnmatch_fun \<Rightarrow> string list \<Rightarrow> PlanConstraints \<Rightarrow> bool" where
  "spec_policy_ok fnm changed c =
     (int (length changed) \<le> max_files_changed c \<and>
      (\<forall>p \<in> set changed. \<not> (\<exists>g \<in> set (forbidden_paths c). fnm (normalize_path p) g)) \<and>
      (\<forall>p \<in> set changed. \<exists>g \<in> set (allowed_paths c). fnm (normalize_path p) g))"

text \<open>The rules as the code applies them: the allow-list is checked only when it is not empty.\<close>

definition code_policy_ok :: "fnmatch_fun \<Rightarrow> string list \<Rightarrow> PlanConstraints \<Rightarrow> bool" where
  "code_policy_ok fnm changed c =
     (int (length changed) \<le> max_files_changed c \<and>
      (\<forall>p \<in> set changed. \<not> (\<exists>g \<in> set (forbidden_paths c). fnm (normalize_path p) g)) \<and>
      (allowed_paths c \<noteq> [] \<longrightarrow>
         (\<forall>p \<in> set changed. \<exists>g \<in> set (allowed_paths c). fnm (normalize_path p) g)))"

section \<open>Plan validator (plan.py)\<close>

text \<open>\<open>step.command and step.command.strip()\<close> as a truth value.\<close>

fun has_command :: "string option \<Rightarrow> bool" where
  "has_command None = False"
| "has_command (Some c) = (c \<noteq> [] \<and> strip c \<noteq> [])"

text \<open>
  The loop over the steps, with its three accumulators: the error list, the set of
  step ids seen, and the set of step types seen.
\<close>

fun steps_loop ::
  "PlanStep list \<Rightarrow> string list \<Rightarrow> string set \<Rightarrow> StepType set \<Rightarrow> string list \<times> StepType set" where
  "steps_loop [] errors seen types = (errors, types)"
| "steps_loop (step # rest) errors seen types =
     (let errors1 = (if s_id step = [] then errors @ [''every step must have an id'']
                     else if s_id step \<in> seen then errors @ [''duplicate step id: '' @ s_id step]
                     else errors);
          seen1 = (if s_id step \<noteq> [] \<and> s_id step \<notin> seen then insert (s_id step) seen else seen);
          types1 = insert (step_type step) types;
          errors2 = (if step_type step = TEST \<and> \<not> has_command (command step)
                     then errors1 @ [''test step '' @ [CHR 0x27] @ s_id step @ [CHR 0x27] @ '' requires command'']
                     else errors1)
      in steps_loop rest errors2 seen1 types1)"

definition head_errors :: "Plan \<Rightarrow> string list" where
  "head_errors p =
     (if plan_id p = [] then [''plan_id is required''] else []) @
     (if plan_task_id p = [] then [''task_id is required''] else []) @
     (if strip (goal p) = [] then [''goal is required''] else []) @
     (if allowed_paths (constraints p) = [] then [''constraints.allowed_paths must not be empty''] else []) @
     (if max_files_changed (constraints p) \<le> 0 then [''constraints.max_files_changed must be > 0''] else [])"

definition validate_plan :: "Plan \<Rightarrow> string list" where
  "validate_plan p =
     (let errors = head_errors p
      in if steps p = [] then errors @ [''at least one plan step is required'']
         else
           (let (errors1, step_types) = steps_loop (steps p) errors {} {};
                errors2 = (if CODE \<notin> step_types
                           then errors1 @ [''plan requires at least one code step''] else errors1);
                errors3 = (if TEST \<notin> step_types
                           then errors2 @ [''plan requires at least one test step''] else errors2)
            in errors3))"

definition assert_plan_valid :: "Plan \<Rightarrow> error option" where
  "assert_plan_valid p =
     (let errors = validate_plan p
      in if errors \<noteq> [] then Some (PlanValidationError (join ''; '' errors)) else None)"

text \<open>The validity rules as the specification lists them.\<close>

definition spec_plan_rules :: "Plan \<Rightarrow> bool" where
  "spec_plan_rules p =
     (plan_id p \<noteq> [] \<and> plan_task_id p \<noteq> [] \<and> goal p \<noteq> [] \<and>
      allowed_paths (constraints p) \<noteq> [] \<and> max_files_changed (constraints p) > 0 \<and>
      steps p \<noteq> [] \<and> distinct (map s_id (steps p)) \<and>
      (\<exists>s \<in> set (steps p). step_type s = CODE) \<and>
      (\<exists>s \<in> set (steps p). step_type s = TEST) \<and>
      (\<forall>s \<in> set (steps p). step_type s = TEST \<longrightarrow>
         (\<exists>c. command s = Some c \<and> c \<noteq> [])))"

text \<open>The rules the code checks: blank text counts as missing, and every step needs an id.\<close>

definition code_plan_rules :: "Plan \<Rightarrow> bool" where
  "code_plan_rules p =
     (plan_id p \<noteq> [] \<and> plan_task_id p \<noteq> [] \<and> strip (goal p) \<noteq> [] \<and>
      allowed_paths (constraints p) \<noteq> [] \<and> max_files_changed (constraints p) > 0 \<and>
      steps p \<noteq> [] \<and> (\<forall>s \<in> set (steps p). s_id s \<noteq> []) \<and> distinct (map s_id (steps p)) \<and>
      (\<exists>s \<in> set (steps p). step_type s = CODE) \<and>
      (\<exists>s \<in> set (steps p). step_type s = TEST) \<and>
      (\<forall>s \<in> set (steps p). step_type s = TEST \<longrightarrow> has_command (command s)))"

section \<open>Task store (store.py)\<close>

text \<open>
  The store directory holds one file \<open>{task_id}.json\<close> per task. A file either holds the
  complete JSON text of a task (\<open>Record\<close>: \<open>json.load\<close> and \<open>Task.from_dict\<close> give the task
  back), or something they cannot read (\<open>Unreadable e\<close>: reading it raises \<open>e\<close>), as an
  empty or half-written file is. The store is the map from task ids to what the files
  hold.
\<close>

datatype stored = Record Task | Unreadable error

type_synonym store = "string \<rightharpoonup> stored"

text \<open>What reading a file raises that was opened for writing and not written to the end.\<close>

definition torn :: stored where
  "torn = Unreadable (OtherException ''JSONDecodeError'')"

section \<open>Agent adapter results (adapters/opencode.py)\<close>

record BuildExecutionResult =
  b_changed_files :: "string list"
  b_diff_path :: string
  output_text :: string
  b_usage :: pydict

record TestExecutionResult =
  t_command :: string
  exit_code :: int
  log_path :: string
  duration_ms :: int

text \<open>\<open>TestExecutionResult.to_dict\<close>\<close>

definition test_result_to_dict :: "TestExecutionResult \<Rightarrow> pydict" where
  "test_result_to_dict r =
     [(''command'', JStr (t_command r)), (''exit_code'', JInt (exit_code r)),
      (''log_path'', JStr (log_path r)), (''duration_ms'', JInt (duration_ms r))]"

section \<open>Orchestrator.run\_task (orchestrator.py)\<close>

text \<open>
  What \<open>run_task\<close> takes from outside: the clock (\<open>utc_now_iso k\<close> is the reading of the
  \<open>k\<close>-th call of \<open>utc_now_iso()\<close> made during the run), the injected agent client
  (\<open>build\<close>; \<open>run_test k\<close> is its \<open>k\<close>-th call in the test loop; either may raise),
  \<open>fnmatch\<close>, the file system under the report directory (\<open>mkdir\<close> and
  \<open>write_text\<close> may raise; \<open>report_path name\<close> is \<open>str(report_dir / name)\<close>), and the file
  system under the store directory: \<open>open_read tid\<close> and \<open>open_write tid\<close> are what
  opening the task's file for reading and for writing raises, if anything, and
  \<open>dump task\<close> is what \<open>json.dump\<close> raises while it writes the task, if anything.
  The client is taken not to mutate the task it is handed.
\<close>

record env =
  utc_now_iso :: "nat \<Rightarrow> string"
  build :: "Task \<Rightarrow> error + BuildExecutionResult"
  run_test :: "nat \<Rightarrow> Task \<Rightarrow> string \<Rightarrow> error + TestExecutionResult"
  fnm :: fnmatch_fun
  mkdir_report_dir :: "error option"
  report_path :: "string \<Rightarrow> string"
  write_text :: "string \<Rightarrow> pydict \<Rightarrow> error option"
  open_read :: "string \<Rightarrow> error option"
  open_write :: "string \<Rightarrow> error option"
  dump :: "Task \<Rightarrow> error option"

text \<open>
  \<open>TaskStore.get\<close>: raises \<open>TaskNotFoundError\<close> when the file is absent, and whatever
  opening or reading the file raises.
\<close>

definition store_get :: "env \<Rightarrow> store \<Rightarrow> string \<Rightarrow> error + Task" where
  "store_get env st tid =
     (case st tid of
        None \<Rightarrow> Inl (TaskNotFoundError (''Task not found: '' @ tid))
      | Some file \<Rightarrow>
          (case open_read env tid of
             Some e \<Rightarrow> Inl e
           | None \<Rightarrow> (case file of Unreadable e \<Rightarrow> Inl e | Record task \<Rightarrow> Inr task)))"

text \<open>
  \<open>TaskStore.save\<close> opens the file named after the task's own id with mode \<open>"w"\<close>, which
  empties it, and then has \<open>json.dump\<close> write the task. The states of the store during
  a save: after the open, and after the dump.
\<close>

definition save_opened :: "store \<Rightarrow> Task \<Rightarrow> store" where
  "save_opened st task = st(task_id task \<mapsto> torn)"

definition save_dumped :: "store \<Rightarrow> Task \<Rightarrow> store" where
  "save_dumped st task = st(task_id task \<mapsto> Record task)"

text \<open>
  \<open>save\<close> returns \<open>None\<close> or raises; the second component is the store after the call.
  When the open raises the file is as before; when the dump raises the file stays torn.
\<close>

definition store_save :: "env \<Rightarrow> store \<Rightarrow> Task \<Rightarrow> error option \<times> store" where
  "store_save env st task =
     (case open_write env (task_id task) of
        Some e \<Rightarrow> (Some e, st)
      | None \<Rightarrow>
          (case dump env task of
             Some e \<Rightarrow> (Some e, save_opened st task)
           | None \<Rightarrow> (None, save_dumped st task)))"

text \<open>
  The contents of the task's file that can be observed from the start of a \<open>save\<close> to
  its end, in order; a save that is interrupted stops at one of them.
\<close>

definition save_states :: "env \<Rightarrow> store \<Rightarrow> Task \<Rightarrow> stored option list" where
  "save_states env st task =
     (case open_write env (task_id task) of
        Some e \<Rightarrow> [st (task_id task)]
      | None \<Rightarrow>
          (case dump env task of
             Some e \<Rightarrow> [st (task_id task), Some torn]
           | None \<Rightarrow> [st (task_id task), Some torn, Some (Record task)]))"

text \<open>\<open>v == 0\<close> for a value read from a result dict.\<close>

fun jv_eq_zero :: "jv \<Rightarrow> bool" where
  "jv_eq_zero (JInt i) = (i = 0)"
| "jv_eq_zero (JBool b) = (\<not> b)"
| "jv_eq_zero (JFloat f) = (f = Finite 0)"
| "jv_eq_zero v = False"

text \<open>
  \<open>_write_test_report\<close>: returns the report's path or raises, and reads the clock once
  when it gets past \<open>mkdir\<close>. The second component is the number of clock readings so far.
\<close>

definition write_test_report ::
  "env \<Rightarrow> nat \<Rightarrow> string \<Rightarrow> pydict list \<Rightarrow> (error + string) \<times> nat" where
  "write_test_report env n tid results =
     (case mkdir_report_dir env of
        Some e \<Rightarrow> (Inl e, n)
      | None \<Rightarrow>
          (let path = report_path env (tid @ ''_test_report.json'');
               report = [(''task_id'', JStr tid),
                         (''generated_at'', JStr (utc_now_iso env n)),
                         (''results'', JList (map JObj results)),
                         (''passed'', JBool (list_all
                            (\<lambda>item. jv_eq_zero (case map_of item ''exit_code'' of
                                                   None \<Rightarrow> JInt 1 | Some v \<Rightarrow> v)) results))]
           in case write_text env path report of
                Some e \<Rightarrow> (Inl e, Suc n)
              | None \<Rightarrow> (Inr path, Suc n)))"

text \<open>
  The loop over the test steps: it stops at the first non-zero exit code, and an
  exception of \<open>run_test\<close> leaves it.
\<close>

fun run_tests ::
  "env \<Rightarrow> Task \<Rightarrow> nat \<Rightarrow> PlanStep list \<Rightarrow> pydict list \<Rightarrow> error + (pydict list \<times> bool)" where
  "run_tests env task k [] results = Inr (results, True)"
| "run_tests env task k (step # rest) results =
     (let cmd = (case command step of None \<Rightarrow> [] | Some c \<Rightarrow> c)
      in case run_test env k task cmd of
           Inl e \<Rightarrow> Inl e
         | Inr result \<Rightarrow>
             (let results1 = results @ [test_result_to_dict result]
              in if exit_code result \<noteq> 0 then Inr (results1, False)
                 else run_tests env task (Suc k) rest results1))"

text \<open>
  The \<open>try\<close> block, in two parts. Each returns the exception that left the block (if
  any), the task as it is at that point, and the number of clock readings so far.
\<close>

definition run_testing :: "env \<Rightarrow> Task \<Rightarrow> Plan \<Rightarrow> nat \<Rightarrow> error option \<times> Task \<times> nat" where
  "run_testing env task pl n =
     (let task1 = record_event (utc_now_iso env n) (utc_now_iso env (n + 1))
                    ''build.completed'' ''Build step completed''
                    (Some [(''diff_path'', (case diff_path (artifacts task) of
                                              None \<Rightarrow> JNull | Some d \<Rightarrow> JStr d)),
                           (''changed_files'', JInt (int (length (changed_files (artifacts task)))))])
                    task
      in case transition (utc_now_iso env (n + 2)) (utc_now_iso env (n + 3)) task1 TESTING
                ''state.change'' ''Entering TESTING'' None of
           (Some e, task2) \<Rightarrow> (Some e, task2, n + 2)
         | (None, task2) \<Rightarrow>
             (let test_steps = filter (\<lambda>step. step_type step = TEST) (steps pl)
              in case run_tests env task2 0 test_steps [] of
                   Inl e \<Rightarrow> (Some e, task2, n + 4)
                 | Inr (results, all_passed) \<Rightarrow>
                     (case write_test_report env (n + 4) (task_id task2) results of
                        (Inl e, n') \<Rightarrow> (Some e, task2, n')
                      | (Inr path, n') \<Rightarrow>
                          (let task3 = task2\<lparr>artifacts := (artifacts task2)
                                          \<lparr>test_results := results, test_report_path := Some path\<rparr>\<rparr>
                           in if all_passed then
                                (case transition (utc_now_iso env n') (utc_now_iso env (n' + 1))
                                        (task3\<lparr>execution := (execution task3)\<lparr>last_error := None\<rparr>\<rparr>)
                                        DONE ''state.change'' ''Task completed'' None of
                                   (Some e, task4) \<Rightarrow> (Some e, task4, n')
                                 | (None, task4) \<Rightarrow> (None, task4, n' + 2))
                              else
                                (case transition (utc_now_iso env n') (utc_now_iso env (n' + 1))
                                        (task3\<lparr>execution := (execution task3)
                                            \<lparr>last_error := Some ''One or more tests failed''\<rparr>\<rparr>)
                                        FAILED ''state.change'' ''Task failed in tests'' None of
                                   (Some e, task4) \<Rightarrow> (Some e, task4, n')
                                 | (None, task4) \<Rightarrow> (None, task4, n' + 2))))))"

definition run_body :: "env \<Rightarrow> Task \<Rightarrow> nat \<Rightarrow> error option \<times> Task \<times> nat" where
  "run_body env task0 n =
     (case transition (utc_now_iso env n) (utc_now_iso env (n + 1)) task0 RUNNING
             ''state.change'' ''Entering RUNNING'' None of
        (Some e, task) \<Rightarrow> (Some e, task, n)
      | (None, task) \<Rightarrow>
          (case plan task of
             None \<Rightarrow> (Some (OrchestratorError ''Task plan is missing''), task, n + 2)
           | Some pl \<Rightarrow>
               (case assert_plan_valid pl of
                  Some e \<Rightarrow> (Some e, task, n + 2)
                | None \<Rightarrow>
                    (case build env task of
                       Inl e \<Rightarrow> (Some e, task, n + 2)
                     | Inr build_result \<Rightarrow>
                         (let task1 = task\<lparr>artifacts := (artifacts task)
                                         \<lparr>diff_path := Some (b_diff_path build_result),
                                          changed_files := b_changed_files build_result\<rparr>\<rparr>
                          in case enforce_file_policy (fnm env) (changed_files (artifacts task1))
                                    (constraints pl) of
                               Some e \<Rightarrow> (Some e, task1, n + 2)
                             | None \<Rightarrow> run_testing env task1 pl (n + 2))))))"

text \<open>
  The \<open>except Exception\<close> handler: it sets \<open>last_error\<close>, moves the task to FAILED unless
  it is FAILED, DONE or CANCELLED, and records \<open>run.failed\<close>.
\<close>

definition run_failed :: "env \<Rightarrow> error \<Rightarrow> Task \<Rightarrow> nat \<Rightarrow> Task" where
  "run_failed env exc task n =
     (let task1 = task\<lparr>execution := (execution task)\<lparr>last_error := Some (str_exc exc)\<rparr>\<rparr>;
          (task2, n2) =
            (if state task1 \<notin> {FAILED, DONE, CANCELLED} then
               (case transition (utc_now_iso env n) (utc_now_iso env (n + 1)) task1 FAILED
                       ''state.change'' ''Task failed'' None of
                  (None, t) \<Rightarrow> (t, n + 2)
                | (Some e, t) \<Rightarrow> (t\<lparr>state := FAILED, updated_at := utc_now_iso env n\<rparr>, n + 1))
             else (task1, n))
      in record_event (utc_now_iso env n2) (utc_now_iso env (n2 + 1))
           ''run.failed'' ''Task run failed'' (Some [(''error'', JStr (str_exc exc))]) task2)"

text \<open>
  \<open>run_task\<close> returns the task or raises; the second component is the store after the
  call. An exception of \<open>store.save\<close> in the handler replaces the one being handled.
\<close>

definition run_task :: "env \<Rightarrow> store \<Rightarrow> string \<Rightarrow> (error + Task) \<times> store" where
  "run_task env st tid =
     (case store_get env st tid of
        Inl e \<Rightarrow> (Inl e, st)
      | Inr task \<Rightarrow>
          if state task = FAILED \<and> attempt (execution task) \<ge> max_attempts (execution task) then
            (Inl (OrchestratorError
               (''Task exceeded max attempts: '' @ str_int (attempt (execution task)) @ ''/'' @
                str_int (max_attempts (execution task)))), st)
          else
            (let task1 = task\<lparr>execution := (execution task)
                            \<lparr>attempt := attempt (execution task) + 1\<rparr>\<rparr>;
                 task2 = record_event (utc_now_iso env 0) (utc_now_iso env 1)
                           ''run.started'' ''Task run started''
                           (Some [(''attempt'', JInt (attempt (execution task1)))]) task1
             in case run_body env task2 2 of
                  (None, task3, n) \<Rightarrow>
                    (case store_save env st task3 of
                       (Some e, st') \<Rightarrow> (Inl e, st')
                     | (None, st') \<Rightarrow> (Inr task3, st'))
                | (Some exc, task3, n) \<Rightarrow>
                    (case store_save env st (run_failed env exc task3 n) of
                       (Some e, st') \<Rightarrow> (Inl e, st')
                     | (None, st') \<Rightarrow> (Inl exc, st'))))"

section \<open>Entry preconditions, and the example task of the test suite\<close>

text \<open>
  The preconditions on entering RUNNING, TESTING and DONE. The code tests
  truthiness, so a field holding the empty string counts as not set.
\<close>

definition running_entry_ok :: "Task \<Rightarrow> bool" where
  "running_entry_ok task =
     ((required (approval task) \<longrightarrow>
         truthy_str (approved_by (approval task)) \<and> truthy_str (approved_at (approval task))) \<and>
      plan task \<noteq> None \<and>
      (\<forall>q \<in> set (questions (the (plan task))). \<not> (q_required q \<and> q_status q = OPEN)))"

definition entry_ok :: "Task \<Rightarrow> TaskState \<Rightarrow> bool" where
  "entry_ok task target =
     ((target = RUNNING \<longrightarrow> running_entry_ok task) \<and>
      (target = TESTING \<longrightarrow> truthy_str (diff_path (artifacts task))) \<and>
      (target = DONE \<longrightarrow> truthy_str (test_report_path (artifacts task))))"

text \<open>The same preconditions in the specification's words, where set means not \<open>None\<close>.\<close>

definition spec_entry_ok :: "Task \<Rightarrow> TaskState \<Rightarrow> bool" where
  "spec_entry_ok task target =
     ((target = RUNNING \<longrightarrow>
         (required (approval task) \<longrightarrow>
            approved_by (approval task) \<noteq> None \<and> approved_at (approval task) \<noteq> None) \<and>
         plan task \<noteq> None \<and>
         (\<forall>q \<in> set (questions (the (plan task))). \<not> (q_required q \<and> q_status q = OPEN))) \<and>
      (target = TESTING \<longrightarrow> diff_path (artifacts task) \<noteq> None) \<and>
      (target = DONE \<longrightarrow> test_report_path (artifacts task) \<noteq> None))"

text \<open>The plan and the approved task that tests/test\_state\_machine.py builds.\<close>

definition demo_plan :: Plan where
  "demo_plan =
     \<lparr>plan_id = ''plan_1'', plan_task_id = ''task_1'', version = 1, goal = ''goal'',
      assumptions = [],
      constraints = \<lparr>allowed_paths = [''src/**''], forbidden_paths = [], max_files_changed = 10\<rparr>,
      questions = [\<lparr>q_id = ''q1'', question = ''question'', q_required = True,
                    q_status = ANSWERED, answer = JNull\<rparr>],
      steps = [\<lparr>s_id = ''s1'', step_type = CODE, s_title = ''code'', command = None,
                 s_status = Step_PENDING\<rparr>,
               \<lparr>s_id = ''s2'', step_type = TEST, s_title = ''test'', command = Some ''pytest -q'',
                 s_status = Step_PENDING\<rparr>],
      approval_gate_before_run = True, approval_gate_before_commit = True,
      plan_created_at = ''2026-02-07T09:00:00Z'', created_by = ''orchestrator''\<rparr>"

definition demo_task :: Task where
  "demo_task =
     \<lparr>task_id = ''task_1'', title = ''Test'', description = ''Test flow'',
      source = \<lparr>src_type = ''feishu'', user_id = ''u1'', chat_id = ''c1'', message_id = ''m1''\<rparr>,
      repo = \<lparr>repo_name = ''repo'', base_branch = ''main'', worktree_path = None, branch = None\<rparr>,
      state = NEW,
      approval = \<lparr>required = True, approved_by = Some ''u1'',
                  approved_at = Some ''2026-02-07T10:00:00Z''\<rparr>,
      plan = Some demo_plan,
      execution = \<lparr>attempt = 0, max_attempts = 3, last_error = None\<rparr>,
      artifacts = \<lparr>clarify_summary = None, diff_path = None, test_report_path = None,
                   pr_url = None, changed_files = [], test_results = []\<rparr>,
      event_log = [],
      created_at = ''2026-02-07T09:00:00Z'', updated_at = ''2026-02-07T09:00:00Z''\<rparr>"

section \<open>Frame conditions and an example environment for run\_task\<close>

text \<open>What no step of \<open>run_task\<close> after the attempt increment changes.\<close>

definition keeps_attempt :: "Task \<Rightarrow> Task \<Rightarrow> bool" where
  "keeps_attempt t t' \<longleftrightarrow>
     task_id t' = task_id t \<and>
     attempt (execution t') = attempt (execution t) \<and>
     max_attempts (execution t') = max_attempts (execution t)"

text \<open>The retry cap of \<open>run_task\<close>: it is tested only for a task in state FAILED.\<close>

definition cap_reached :: "Task \<Rightarrow> bool" where
  "cap_reached task \<longleftrightarrow>
     state task = FAILED \<and> attempt (execution task) \<ge> max_attempts (execution task)"

text \<open>
  The stub client of the happy-path scenario: the build changes one file under
  \<open>src/\<close>, every test command exits with 0, the report directory and the store
  directory can be read and written, and the clock stands still.
\<close>

definition demo_env :: env where
  "demo_env =
     \<lparr>utc_now_iso = (\<lambda>k. ''2026-02-07T10:00:00Z''),
      build = (\<lambda>task. Inr \<lparr>b_changed_files = [''src/new_module.py''],
                             b_diff_path = ''/tmp/task.diff'', output_text = [], b_usage = []\<rparr>),
      run_test = (\<lambda>k task cmd. Inr \<lparr>t_command = cmd, exit_code = 0,
                                       log_path = ''/tmp/test.log'', duration_ms = 1\<rparr>),
      fnm = fnmatch (\<lambda>name pat. False),
      mkdir_report_dir = None,
      report_path = (\<lambda>name. ''reports/'' @ name),
      write_text = (\<lambda>path report. None),
      open_read = (\<lambda>tid. None), open_write = (\<lambda>tid. None), dump = (\<lambda>task. None)\<rparr>"

text \<open>The same environment with a store directory on a full disk: every dump raises.\<close>

definition full_disk_env :: env where
  "full_disk_env = demo_env\<lparr>dump := (\<lambda>task. Some (OtherException ''OSError''))\<rparr>"

text \<open>The example task after clarification, approved and waiting to run.\<close>

definition waiting_task :: Task where
  "waiting_task = demo_task\<lparr>state := WAIT_APPROVAL\<rparr>"


text \<open>The example task after three runs whose tests failed: FAILED, at the cap.\<close>

definition exhausted_task :: Task where
  "exhausted_task =
     demo_task\<lparr>state := FAILED,
               execution := \<lparr>attempt = 3, max_attempts = 3,
                              last_error = Some ''One or more tests failed''\<rparr>\<rparr>"

text \<open>
  The task as it enters the \<open>try\<close> block of \<open>run_task\<close>: the attempt counted and the
  \<open>run.started\<close> event recorded.
\<close>

definition run_started :: "env \<Rightarrow> Task \<Rightarrow> Task" where
  "run_started env task =
     (let task1 = task\<lparr>execution := (execution task)
                            \<lparr>attempt := attempt (execution task) + 1\<rparr>\<rparr>
      in record_event (utc_now_iso env 0) (utc_now_iso env 1)
           ''run.started'' ''Task run started''
           (Some [(''attempt'', JInt (attempt (execution task1)))]) task1)"


text \<open>The example task approved and waiting to run, with the attempt counter at the cap.\<close>

definition overrun_task :: Task where
  "overrun_task =
     waiting_task\<lparr>execution := \<lparr>attempt = 3, max_attempts = 3, last_error = None\<rparr>\<rparr>"

section \<open>Rule-based intent classifier (intent.py)\<close>

text \<open>
  The classifier works on text in any script, so here a Python \<open>str\<close> is the list of its
  Unicode code points. What the Python library knows about code points is a parameter:
  \<open>u_isspace\<close> is \<open>str.isspace\<close> on one character (also the class \<open>\s\<close> of \<open>re\<close>),
  \<open>u_isword\<close> is the class \<open>\w\<close>, \<open>u_lower\<close> is \<open>str.lower\<close>, and \<open>u_caseless p x\<close> says
  that the pattern character \<open>p\<close> matches the text character \<open>x\<close> under
  \<open>re.IGNORECASE\<close>.
\<close>

type_synonym ustr = "nat list"

record unicode =
  u_isspace :: "nat \<Rightarrow> bool"
  u_isword :: "nat \<Rightarrow> bool"
  u_lower :: "ustr \<Rightarrow> ustr"
  u_caseless :: "nat \<Rightarrow> nat \<Rightarrow> bool"

datatype ApprovalIntent = APPROVE | REJECT | CLARIFY | UNKNOWN

record IntentResult =
  intent :: ApprovalIntent
  confidence :: rat
  reason :: string
  raw :: "pydict option"

text \<open>
  The regular expressions of the three rule sets use literal characters, \<open>^\<close>, \<open>$\<close>,
  \<open>\b\<close>, \<open>\s+\<close> and one optional character (\<open>(d)?\<close>). A pattern is a sequence of
  these items.
\<close>

datatype rx = Lit nat | Bol | Eol | WordB | SpacePlus | OptLit nat

definition lits :: "string \<Rightarrow> rx list" where
  "lits s = map (\<lambda>c. Lit (of_char c)) s"

text \<open>
  \<open>\b\<close>: exactly one of the characters before and after the position is a word
  character; the start and the end of the text count as non-word.
\<close>

definition at_boundary :: "unicode \<Rightarrow> nat option \<Rightarrow> ustr \<Rightarrow> bool" where
  "at_boundary u prev rest \<longleftrightarrow>
     (case prev of None \<Rightarrow> False | Some p \<Rightarrow> u_isword u p) \<noteq>
     (case rest of [] \<Rightarrow> False | x # xs \<Rightarrow> u_isword u x)"

text \<open>
  \<open>rx_match u p prev rest\<close>: the pattern matches a prefix of \<open>rest\<close>, where \<open>prev\<close> is
  the character before the position (\<open>None\<close> at the start of the text). \<open>$\<close> matches
  at the end of the text and before a newline that ends the text.
\<close>

fun rx_match :: "unicode \<Rightarrow> rx list \<Rightarrow> nat option \<Rightarrow> ustr \<Rightarrow> bool" where
  "rx_match u [] prev rest = True"
| "rx_match u (Lit c # rs) prev [] = False"
| "rx_match u (Lit c # rs) prev (x # xs) = (u_caseless u c x \<and> rx_match u rs (Some x) xs)"
| "rx_match u (OptLit c # rs) prev [] = rx_match u rs prev []"
| "rx_match u (OptLit c # rs) prev (x # xs) =
     ((u_caseless u c x \<and> rx_match u rs (Some x) xs) \<or> rx_match u rs prev (x # xs))"
| "rx_match u (Bol # rs) prev rest = (prev = None \<and> rx_match u rs prev rest)"
| "rx_match u (Eol # rs) prev rest = ((rest = [] \<or> rest = [10]) \<and> rx_match u rs prev rest)"
| "rx_match u (WordB # rs) prev rest = (at_boundary u prev rest \<and> rx_match u rs prev rest)"
| "rx_match u (SpacePlus # rs) prev [] = False"
| "rx_match u (SpacePlus # rs) prev (x # xs) =
     (u_isspace u x \<and> (rx_match u rs (Some x) xs \<or> rx_match u (SpacePlus # rs) (Some x) xs))"

text \<open>\<open>re.search\<close>: the pattern matches at some position of the text.\<close>

fun rx_search :: "unicode \<Rightarrow> rx list \<Rightarrow> nat option \<Rightarrow> ustr \<Rightarrow> bool" where
  "rx_search u p prev [] = rx_match u p prev []"
| "rx_search u p prev (x # xs) = (rx_match u p prev (x # xs) \<or> rx_search u p (Some x) xs)"

definition re_search :: "unicode \<Rightarrow> rx list \<Rightarrow> ustr \<Rightarrow> bool" where
  "re_search u p text = rx_search u p None text"

text \<open>
  The rule sets, in the order of the source. The Chinese phrases are given by their
  code points.
\<close>

definition approve_patterns :: "rx list list" where
  "approve_patterns =
     [Bol # lits ''/approve'' @ [Eol],
      WordB # lits ''approve'' @ [OptLit (of_char CHR ''d''), WordB],
      WordB # lits ''go'' @ [SpacePlus] @ lits ''ahead'' @ [WordB],
      WordB # lits ''ship'' @ [SpacePlus] @ lits ''it'' @ [WordB],
      WordB # lits ''ok'' @ [WordB],
      WordB # lits ''okay'' @ [WordB],
      WordB # lits ''lgtm'' @ [WordB],
      map Lit [0x540C, 0x610F],
      map Lit [0x901A, 0x8FC7],
      map Lit [0x53EF, 0x4EE5, 0x5F00, 0x59CB],
      map Lit [0x5F00, 0x59CB, 0x5427],
      map Lit [0x5F00, 0x5E72],
      map Lit [0x6CA1, 0x95EE, 0x9898]]"

definition reject_patterns :: "rx list list" where
  "reject_patterns =
     [Bol # lits ''/reject'' @ [Eol],
      WordB # lits ''reject'' @ [WordB],
      WordB # lits ''decline'' @ [WordB],
      WordB # lits ''cancel'' @ [WordB],
      WordB # lits ''hold'' @ [WordB],
      WordB # lits ''not'' @ [SpacePlus] @ lits ''now'' @ [WordB],
      map Lit [0x4E0D, 0x540C, 0x610F],
      map Lit [0x62D2, 0x7EDD],
      map Lit [0x5148, 0x522B],
      map Lit [0x4E0D, 0x8981],
      map Lit [0x53D6, 0x6D88],
      map Lit [0x505C, 0x6B62],
      map Lit [0x505C, 0x4E0B]]"

definition clarify_patterns :: "rx list list" where
  "clarify_patterns =
     [lits ''?'',
      map Lit [0x4E3A, 0x4EC0, 0x4E48],
      map Lit [0x80FD, 0x4E0D, 0x80FD],
      map Lit [0x662F, 0x5426],
      map Lit [0x8BF7, 0x89E3, 0x91CA],
      map Lit [0x518D, 0x786E, 0x8BA4]]"

text \<open>\<open>_match_any\<close>\<close>

definition match_any :: "unicode \<Rightarrow> ustr \<Rightarrow> rx list list \<Rightarrow> bool" where
  "match_any u text patterns = list_ex (\<lambda>pattern. re_search u pattern text) patterns"

text \<open>\<open>re.sub(r"\s+", " ", s)\<close>: every maximal run of whitespace becomes one space.\<close>

function collapse_ws :: "unicode \<Rightarrow> ustr \<Rightarrow> ustr" where
  "collapse_ws u [] = []"
| "collapse_ws u (x # xs) =
     (if u_isspace u x then 32 # collapse_ws u (dropWhile (u_isspace u) xs)
      else x # collapse_ws u xs)"
  by pat_completeness auto
termination
  by (relation "measure (\<lambda>(u, s). length s)") (auto simp: length_dropWhile_le less_Suc_eq_le)

text \<open>\<open>str.strip()\<close> on code points.\<close>

definition u_strip :: "unicode \<Rightarrow> ustr \<Rightarrow> ustr" where
  "u_strip u s = rev (dropWhile (u_isspace u) (rev (dropWhile (u_isspace u) s)))"

text \<open>\<open>_normalize\<close>\<close>

definition normalize :: "unicode \<Rightarrow> ustr \<Rightarrow> ustr" where
  "normalize u text = collapse_ws u (u_lower u (u_strip u text))"

definition classify :: "unicode \<Rightarrow> ustr \<Rightarrow> IntentResult" where
  "classify u text =
     (let normalized = normalize u text
      in if normalized = [] then
           \<lparr>intent = UNKNOWN, confidence = 0, reason = ''empty message'', raw = None\<rparr>
         else if match_any u normalized reject_patterns then
           \<lparr>intent = REJECT, confidence = 0.95, reason = ''matched reject rule'', raw = None\<rparr>
         else if match_any u normalized approve_patterns then
           \<lparr>intent = APPROVE, confidence = 0.95, reason = ''matched approve rule'', raw = None\<rparr>
         else if match_any u normalized clarify_patterns then
           \<lparr>intent = CLARIFY, confidence = 0.6, reason = ''matched clarify rule'', raw = None\<rparr>
         else
           \<lparr>intent = UNKNOWN, confidence = 0.2, reason = ''no rule matched'', raw = None\<rparr>)"

text \<open>
  The library's tables on the code points the examples use: ASCII, where a word
  character is a letter, a digit or the underscore and lower-casing maps \<open>A\<close> to \<open>Z\<close>;
  and the CJK Unified Ideographs (\<open>0x4E00\<close> to \<open>0x9FFF\<close>), which are word characters
  without case. Whitespace is the full list of \<open>str.isspace\<close>. Other code points are
  taken as non-word and without case.
\<close>

definition ascii_lower :: "nat \<Rightarrow> nat" where
  "ascii_lower c = (if 65 \<le> c \<and> c \<le> 90 then c + 32 else c)"

definition basic_isspace :: "nat \<Rightarrow> bool" where
  "basic_isspace c \<longleftrightarrow>
     (9 \<le> c \<and> c \<le> 13) \<or> (28 \<le> c \<and> c \<le> 32) \<or> c = 0x85 \<or> c = 0xA0 \<or> c = 0x1680 \<or>
     (0x2000 \<le> c \<and> c \<le> 0x200A) \<or> c = 0x2028 \<or> c = 0x2029 \<or> c = 0x202F \<or>
     c = 0x205F \<or> c = 0x3000"

definition basic_isword :: "nat \<Rightarrow> bool" where
  "basic_isword c \<longleftrightarrow>
     (48 \<le> c \<and> c \<le> 57) \<or> (65 \<le> c \<and> c \<le> 90) \<or> c = 95 \<or> (97 \<le> c \<and> c \<le> 122) \<or>
     (0x4E00 \<le> c \<and> c \<le> 0x9FFF)"

definition basic_unicode :: unicode where
  "basic_unicode =
     \<lparr>u_isspace = basic_isspace, u_isword = basic_isword, u_lower = map ascii_lower,
      u_caseless = (\<lambda>p x. ascii_lower p = ascii_lower x)\<rparr>"

text \<open>A text given in ASCII, as code points.\<close>

definition ascii :: "string \<Rightarrow> ustr" where
  "ascii s = map of_char s"

text \<open>
  The claim's reading of the result when no pattern matches, for comparison with the
  code: intent unknown with confidence 0.2.
\<close>

definition spec_unmatched_result :: "IntentResult \<Rightarrow> bool" where
  "spec_unmatched_result r \<longleftrightarrow> intent r = UNKNOWN \<and> confidence r = 0.2"

section \<open>Plan normalisation (adapters/opencode.py) and Plan.from\_dict (models.py)\<close>

text \<open>
  The agent's output is parsed JSON: a \<open>jv\<close>. The Python built-ins the normalisation
  applies to such values follow. An exception of the library is an \<open>OtherException\<close>
  that carries the name of its class in place of its message.
\<close>

text \<open>Truthiness (\<open>bool(x)\<close>, \<open>x or y\<close>, \<open>not x\<close>).\<close>

fun truthy :: "jv \<Rightarrow> bool" where
  "truthy JNull = False"
| "truthy (JBool b) = b"
| "truthy (JInt i) = (i \<noteq> 0)"
| "truthy (JFloat f) = (f \<noteq> Finite 0)"
| "truthy (JStr s) = (s \<noteq> [])"
| "truthy (JList xs) = (xs \<noteq> [])"
| "truthy (JObj d) = (d \<noteq> [])"

definition py_or :: "jv \<Rightarrow> jv \<Rightarrow> jv" where
  "py_or x y = (if truthy x then x else y)"

text \<open>\<open>d.get(key, default)\<close> and \<open>d[key]\<close> on a dict.\<close>

definition dict_get :: "pydict \<Rightarrow> string \<Rightarrow> jv \<Rightarrow> jv" where
  "dict_get d k dflt = (case map_of d k of None \<Rightarrow> dflt | Some v \<Rightarrow> v)"

definition subscript :: "pydict \<Rightarrow> string \<Rightarrow> error + jv" where
  "subscript d k = (case map_of d k of None \<Rightarrow> Inl (OtherException ''KeyError'') | Some v \<Rightarrow> Inr v)"

text \<open>\<open>x.get(key, default)\<close> on any value: only a dict has the method.\<close>

fun attr_get :: "jv \<Rightarrow> string \<Rightarrow> jv \<Rightarrow> error + jv" where
  "attr_get (JObj d) k dflt = Inr (dict_get d k dflt)"
| "attr_get v k dflt = Inl (OtherException ''AttributeError'')"

text \<open>
  What is left to the library: \<open>py_repr\<close> is \<open>str(x)\<close> for a float, a list or a dict,
  and \<open>int_of_str\<close> is the parser behind \<open>int(s)\<close> for a string (\<open>None\<close> when it raises
  \<open>ValueError\<close>).
\<close>

record pylib =
  py_repr :: "jv \<Rightarrow> string"
  int_of_str :: "string \<Rightarrow> int option"

fun py_str :: "pylib \<Rightarrow> jv \<Rightarrow> string" where
  "py_str lib (JStr s) = s"
| "py_str lib JNull = ''None''"
| "py_str lib (JBool b) = (if b then ''True'' else ''False'')"
| "py_str lib (JInt i) = str_int i"
| "py_str lib v = py_repr lib v"

text \<open>\<open>int(x)\<close>: a float is truncated towards zero.\<close>

fun py_int :: "pylib \<Rightarrow> jv \<Rightarrow> error + int" where
  "py_int lib (JInt i) = Inr i"
| "py_int lib (JBool b) = Inr (if b then 1 else 0)"
| "py_int lib (JFloat (Finite r)) = Inr (if r \<ge> 0 then \<lfloor>r\<rfloor> else \<lceil>r\<rceil>)"
| "py_int lib (JFloat NaN) = Inl (OtherException ''ValueError'')"
| "py_int lib (JFloat f) = Inl (OtherException ''OverflowError'')"
| "py_int lib (JStr s) =
     (case int_of_str lib s of None \<Rightarrow> Inl (OtherException ''ValueError'') | Some i \<Rightarrow> Inr i)"
| "py_int lib v = Inl (OtherException ''TypeError'')"

text \<open>
  Iteration (\<open>for item in x\<close>, \<open>list(x)\<close>): a list gives its items, a string its
  characters, a dict its keys; nothing else is iterable.
\<close>

fun py_iter :: "jv \<Rightarrow> error + jv list" where
  "py_iter (JList xs) = Inr xs"
| "py_iter (JStr s) = Inr (map (\<lambda>c. JStr [c]) s)"
| "py_iter (JObj d) = Inr (map (\<lambda>kv. JStr (fst kv)) d)"
| "py_iter v = Inl (OtherException ''TypeError'')"

text \<open>\<open>str.lower()\<close> on code points below 256.\<close>

definition lower_char :: "char \<Rightarrow> char" where
  "lower_char c =
     (let n = (of_char c :: nat)
      in if (65 \<le> n \<and> n \<le> 90) \<or> (192 \<le> n \<and> n \<le> 222 \<and> n \<noteq> 215) then char_of (n + 32) else c)"

definition py_lower :: "string \<Rightarrow> string" where
  "py_lower s = map lower_char s"

text \<open>Sequencing of steps that may raise.\<close>

fun and_then :: "error + 'a \<Rightarrow> ('a \<Rightarrow> error + 'b) \<Rightarrow> error + 'b" where
  "and_then (Inl e) f = Inl e"
| "and_then (Inr x) f = f x"

fun map_raising :: "('a \<Rightarrow> error + 'b) \<Rightarrow> 'a list \<Rightarrow> error + 'b list" where
  "map_raising f [] = Inr []"
| "map_raising f (x # xs) =
     and_then (f x) (\<lambda>y. and_then (map_raising f xs) (\<lambda>ys. Inr (y # ys)))"

subsection \<open>\_normalize\_questions and \_normalize\_steps\<close>

definition normalize_question :: "pylib \<Rightarrow> nat \<Rightarrow> pydict \<Rightarrow> pydict" where
  "normalize_question lib idx item =
     (let status_raw = py_lower (py_str lib (dict_get item ''status'' (JStr ''open'')));
          status = (if status_raw = ''answered'' then ''answered'' else ''open'')
      in [(''id'', JStr (py_str lib (py_or (dict_get item ''id'' JNull) (JStr (''q'' @ str_nat idx))))),
          (''question'', JStr (py_str lib (py_or (dict_get item ''question'' JNull) (JStr [])))),
          (''required'', JBool (truthy (dict_get item ''required'' (JBool True)))),
          (''status'', JStr status),
          (''answer'', dict_get item ''answer'' JNull)])"

fun questions_loop :: "pylib \<Rightarrow> nat \<Rightarrow> jv list \<Rightarrow> pydict list \<Rightarrow> pydict list" where
  "questions_loop lib idx [] output = output"
| "questions_loop lib idx (JObj item # rest) output =
     questions_loop lib (Suc idx) rest (output @ [normalize_question lib idx item])"
| "questions_loop lib idx (v # rest) output = questions_loop lib (Suc idx) rest output"

fun normalize_questions :: "pylib \<Rightarrow> jv \<Rightarrow> pydict list" where
  "normalize_questions lib (JList items) = questions_loop lib 1 items []"
| "normalize_questions lib v = []"

text \<open>\<open>isinstance(command, str) and command.strip()\<close> as a truth value.\<close>

fun str_with_text :: "jv \<Rightarrow> bool" where
  "str_with_text (JStr s) = (strip s \<noteq> [])"
| "str_with_text v = False"

fun is_str :: "jv \<Rightarrow> bool" where
  "is_str (JStr s) = True"
| "is_str v = False"

text \<open>One pass of the loop body of \<open>_normalize_steps\<close>: the normalised dict and its step type.\<close>

definition normalize_step :: "pylib \<Rightarrow> nat \<Rightarrow> pydict \<Rightarrow> pydict \<times> string" where
  "normalize_step lib idx item =
     (let step_type_raw = py_lower (py_str lib (dict_get item ''type'' (JStr ''code'')));
          step_type = (if step_type_raw = ''test'' then ''test'' else ''code'');
          status_raw = py_lower (py_str lib (dict_get item ''status'' (JStr ''pending'')));
          status = (if status_raw \<in> {''pending'', ''running'', ''completed'', ''failed''}
                    then status_raw else ''pending'');
          command0 = dict_get item ''command'' JNull;
          command1 = (if step_type = ''test'' \<and> \<not> str_with_text command0
                      then JStr ''pytest -q'' else command0)
      in ([(''id'', JStr (py_str lib (py_or (dict_get item ''id'' JNull) (JStr (''s'' @ str_nat idx))))),
           (''type'', JStr step_type),
           (''title'', JStr (py_str lib (py_or (dict_get item ''title'' JNull)
                                            (JStr (''Step '' @ str_nat idx))))),
           (''command'', (if is_str command1 then command1 else JNull)),
           (''status'', JStr status)],
          step_type))"

fun steps_norm_loop ::
  "pylib \<Rightarrow> nat \<Rightarrow> jv list \<Rightarrow> pydict list \<Rightarrow> bool \<Rightarrow> bool \<Rightarrow> pydict list \<times> bool \<times> bool" where
  "steps_norm_loop lib idx [] output has_code has_test = (output, has_code, has_test)"
| "steps_norm_loop lib idx (JObj item # rest) output has_code has_test =
     (let (normalized, step_type) = normalize_step lib idx item
      in steps_norm_loop lib (Suc idx) rest (output @ [normalized])
           (has_code \<or> step_type = ''code'') (has_test \<or> step_type = ''test''))"
| "steps_norm_loop lib idx (v # rest) output has_code has_test =
     steps_norm_loop lib (Suc idx) rest output has_code has_test"

definition default_code_step :: pydict where
  "default_code_step =
     [(''id'', JStr ''s_code''), (''type'', JStr ''code''),
      (''title'', JStr ''Implement required changes''), (''command'', JNull),
      (''status'', JStr ''pending'')]"

definition default_test_step :: pydict where
  "default_test_step =
     [(''id'', JStr ''s_test''), (''type'', JStr ''test''), (''title'', JStr ''Run tests''),
      (''command'', JStr ''pytest -q''), (''status'', JStr ''pending'')]"

fun normalize_steps :: "pylib \<Rightarrow> jv \<Rightarrow> pydict list" where
  "normalize_steps lib (JList items) =
     (let (output, has_code, has_test) = steps_norm_loop lib 1 items [] False False;
          output1 = (if output \<noteq> [] \<and> \<not> has_code then default_code_step # output else output);
          output2 = (if output1 \<noteq> [] \<and> \<not> has_test then output1 @ [default_test_step] else output1)
      in output2)"
| "normalize_steps lib v = []"

subsection \<open>Plan.from\_dict and its parts\<close>

text \<open>
  The records are typed, so a field takes a value of its type only; a value of another
  type is reported as a \<open>TypeError\<close> (Python would store it as it is).
\<close>

fun as_str :: "jv \<Rightarrow> error + string" where
  "as_str (JStr s) = Inr s"
| "as_str v = Inl (OtherException ''TypeError'')"

fun as_opt_str :: "jv \<Rightarrow> error + string option" where
  "as_opt_str (JStr s) = Inr (Some s)"
| "as_opt_str JNull = Inr None"
| "as_opt_str v = Inl (OtherException ''TypeError'')"

fun as_dict :: "jv \<Rightarrow> error + pydict" where
  "as_dict (JObj d) = Inr d"
| "as_dict v = Inl (OtherException ''TypeError'')"

text \<open>The enum constructors \<open>StepType(value)\<close>, \<open>StepStatus(value)\<close>, \<open>QuestionStatus(value)\<close>.\<close>

definition StepType_of :: "jv \<Rightarrow> error + StepType" where
  "StepType_of v =
     (if v = JStr ''code'' then Inr CODE else if v = JStr ''test'' then Inr TEST
      else Inl (OtherException ''ValueError''))"

definition StepStatus_of :: "jv \<Rightarrow> error + StepStatus" where
  "StepStatus_of v =
     (if v = JStr ''pending'' then Inr Step_PENDING
      else if v = JStr ''running'' then Inr Step_RUNNING
      else if v = JStr ''completed'' then Inr Step_COMPLETED
      else if v = JStr ''failed'' then Inr Step_FAILED
      else Inl (OtherException ''ValueError''))"

definition QuestionStatus_of :: "jv \<Rightarrow> error + QuestionStatus" where
  "QuestionStatus_of v =
     (if v = JStr ''open'' then Inr OPEN else if v = JStr ''answered'' then Inr ANSWERED
      else Inl (OtherException ''ValueError''))"

definition PlanQuestion_from_dict :: "pydict \<Rightarrow> error + PlanQuestion" where
  "PlanQuestion_from_dict d =
     and_then (and_then (subscript d ''id'') as_str) (\<lambda>i.
     and_then (and_then (subscript d ''question'') as_str) (\<lambda>q.
     and_then (QuestionStatus_of (dict_get d ''status'' (JStr ''open''))) (\<lambda>st.
       Inr \<lparr>q_id = i, question = q,
            q_required = truthy (dict_get d ''required'' (JBool True)),
            q_status = st, answer = dict_get d ''answer'' JNull\<rparr>)))"

definition PlanStep_from_dict :: "pydict \<Rightarrow> error + PlanStep" where
  "PlanStep_from_dict d =
     and_then (and_then (subscript d ''id'') as_str) (\<lambda>i.
     and_then (and_then (subscript d ''type'') StepType_of) (\<lambda>ty.
     and_then (and_then (subscript d ''title'') as_str) (\<lambda>t.
     and_then (as_opt_str (dict_get d ''command'' JNull)) (\<lambda>c.
     and_then (StepStatus_of (dict_get d ''status'' (JStr ''pending''))) (\<lambda>st.
       Inr \<lparr>s_id = i, step_type = ty, s_title = t, command = c, s_status = st\<rparr>)))))"

definition PlanConstraints_from_dict :: "pylib \<Rightarrow> pydict \<Rightarrow> error + PlanConstraints" where
  "PlanConstraints_from_dict lib d =
     and_then (and_then (py_iter (dict_get d ''allowed_paths'' (JList []))) (map_raising as_str)) (\<lambda>a.
     and_then (and_then (py_iter (dict_get d ''forbidden_paths'' (JList []))) (map_raising as_str)) (\<lambda>f.
     and_then (py_int lib (dict_get d ''max_files_changed'' (JInt 20))) (\<lambda>m.
       Inr \<lparr>allowed_paths = a, forbidden_paths = f, max_files_changed = m\<rparr>)))"

text \<open>
  \<open>Plan.from_dict\<close>; \<open>now\<close> is the reading of the clock for the default of \<open>created_at\<close>.
\<close>

definition Plan_from_dict :: "pylib \<Rightarrow> string \<Rightarrow> pydict \<Rightarrow> error + Plan" where
  "Plan_from_dict lib now d =
     (let approval_gate = dict_get d ''approval_gate'' (JObj []);
          metadata = dict_get d ''metadata'' (JObj [])
      in and_then (and_then (subscript d ''plan_id'') as_str) (\<lambda>pid.
         and_then (and_then (subscript d ''task_id'') as_str) (\<lambda>tid.
         and_then (py_int lib (dict_get d ''version'' (JInt 1))) (\<lambda>ver.
         and_then (as_str (dict_get d ''goal'' (JStr []))) (\<lambda>g.
         and_then (py_iter (dict_get d ''assumptions'' (JList []))) (\<lambda>asm.
         and_then (and_then (as_dict (dict_get d ''constraints'' (JObj [])))
                     (PlanConstraints_from_dict lib)) (\<lambda>cs.
         and_then (and_then (py_iter (dict_get d ''questions'' (JList [])))
                     (map_raising (\<lambda>item. and_then (as_dict item) PlanQuestion_from_dict))) (\<lambda>qs.
         and_then (and_then (py_iter (dict_get d ''steps'' (JList [])))
                     (map_raising (\<lambda>item. and_then (as_dict item) PlanStep_from_dict))) (\<lambda>ss.
         and_then (attr_get approval_gate ''required_before_run'' (JBool True)) (\<lambda>before_run.
         and_then (attr_get approval_gate ''required_before_commit'' (JBool True)) (\<lambda>before_commit.
         and_then (and_then (attr_get metadata ''created_at'' (JStr now)) as_str) (\<lambda>cat.
         and_then (and_then (attr_get metadata ''created_by'' (JStr ''orchestrator'')) as_str) (\<lambda>cby.
           Inr \<lparr>plan_id = pid, plan_task_id = tid, version = ver, goal = g, assumptions = asm,
                constraints = cs, questions = qs, steps = ss,
                approval_gate_before_run = truthy before_run,
                approval_gate_before_commit = truthy before_commit,
                plan_created_at = cat, created_by = cby\<rparr>)))))))))))))"

subsection \<open>\_plan\_from\_payload\<close>

definition default_steps :: "pydict list" where
  "default_steps =
     [[(''id'', JStr ''s1''), (''type'', JStr ''code''),
       (''title'', JStr ''Implement required changes''), (''status'', JStr ''pending'')],
      [(''id'', JStr ''s2''), (''type'', JStr ''test''), (''title'', JStr ''Run tests''),
       (''command'', JStr ''pytest -q''), (''status'', JStr ''pending'')]]"

text \<open>\<open>task.description or task.title\<close>\<close>

definition description_or_title :: "Task \<Rightarrow> string" where
  "description_or_title task = (if description task \<noteq> [] then description task else title task)"

definition plan_from_payload :: "pylib \<Rightarrow> string \<Rightarrow> pydict \<Rightarrow> Task \<Rightarrow> error + Plan" where
  "plan_from_payload lib now plan_payload task =
     (let constraints_payload = dict_get plan_payload ''constraints'' (JObj [])
      in and_then (attr_get constraints_payload ''allowed_paths'' JNull) (\<lambda>allowed0.
         and_then (attr_get constraints_payload ''forbidden_paths'' JNull) (\<lambda>forbidden0.
         and_then (and_then (attr_get constraints_payload ''max_files_changed'' (JInt 20))
                     (py_int lib)) (\<lambda>max_files.
         (let allowed = py_or allowed0 (JList [JStr ''src/**'', JStr ''tests/**'', JStr ''README.md'']);
              forbidden = py_or forbidden0 (JList [JStr ''.git/**'', JStr ''secrets/**'']);
              normalized_steps0 = normalize_steps lib (dict_get plan_payload ''steps'' JNull);
              normalized_steps = (if normalized_steps0 = [] then default_steps
                                  else normalized_steps0);
              normalized_questions = normalize_questions lib (dict_get plan_payload ''questions'' JNull);
              approval_gate = dict_get plan_payload ''approval_gate'' (JObj []);
              metadata = dict_get plan_payload ''metadata'' (JObj [])
          in and_then (py_int lib (dict_get plan_payload ''version'' (JInt 1))) (\<lambda>ver.
             and_then (py_iter (dict_get plan_payload ''assumptions'' (JList []))) (\<lambda>asm.
             and_then (py_iter allowed) (\<lambda>allowed_items.
             and_then (py_iter forbidden) (\<lambda>forbidden_items.
             and_then (attr_get approval_gate ''required_before_run'' (JBool True)) (\<lambda>before_run.
             and_then (attr_get approval_gate ''required_before_commit'' (JBool True)) (\<lambda>before_commit.
             and_then (attr_get metadata ''created_at'' JNull) (\<lambda>created_at0.
             and_then (attr_get metadata ''created_by'' JNull) (\<lambda>created_by0.
               Plan_from_dict lib now
                 [(''plan_id'', JStr (py_str lib (py_or (dict_get plan_payload ''plan_id'' JNull)
                                  (JStr (''plan_'' @ task_id task @ ''_v1''))))),
                  (''task_id'', JStr (py_str lib (py_or (dict_get plan_payload ''task_id'' JNull)
                                  (JStr (task_id task))))),
                  (''version'', JInt ver),
                  (''goal'', JStr (py_str lib (py_or (dict_get plan_payload ''goal'' JNull)
                                  (JStr (description_or_title task))))),
                  (''assumptions'', JList asm),
                  (''constraints'', JObj
                     [(''allowed_paths'', JList (map (\<lambda>item. JStr (py_str lib item)) allowed_items)),
                      (''forbidden_paths'', JList (map (\<lambda>item. JStr (py_str lib item)) forbidden_items)),
                      (''max_files_changed'', JInt max_files)]),
                  (''questions'', JList (map JObj normalized_questions)),
                  (''steps'', JList (map JObj normalized_steps)),
                  (''approval_gate'', JObj
                     [(''required_before_run'', JBool (truthy before_run)),
                      (''required_before_commit'', JBool (truthy before_commit))]),
                  (''metadata'', JObj
                     [(''created_at'', JStr (py_str lib (py_or created_at0 (JStr now)))),
                      (''created_by'', JStr (py_str lib (py_or created_by0
                                                (JStr ''opencode-plan-agent''))))])])))))))))))))"

text \<open>A library for the examples: its two functions are not reached by them.\<close>

definition demo_lib :: pylib where
  "demo_lib = \<lparr>py_repr = (\<lambda>v. ''?''), int_of_str = (\<lambda>s. None)\<rparr>"

text \<open>
  What is asked of the library's \<open>str\<close> for the results below: it never returns the
  empty string for a float, a list or a dict.
\<close>

definition repr_nonempty :: "pylib \<Rightarrow> bool" where
  "repr_nonempty lib \<longleftrightarrow> (\<forall>v. py_repr lib v \<noteq> [])"

text \<open>
  A normalised step dict is in order when \<open>PlanStep.from_dict\<close> accepts it and the step
  has a non-empty id and, if it is a test step, a command that is not blank.
\<close>

definition step_in_order :: "pydict \<Rightarrow> bool" where
  "step_in_order d \<longleftrightarrow>
     (\<exists>s. PlanStep_from_dict d = Inr s \<and> s_id s \<noteq> [] \<and>
          (step_type s = TEST \<longrightarrow> has_command (command s)))"

definition dict_step_type :: "pydict \<Rightarrow> StepType option" where
  "dict_step_type d =
     (case PlanStep_from_dict d of Inl e \<Rightarrow> None | Inr s \<Rightarrow> Some (step_type s))"

text \<open>What the normalisation leaves to the validator.\<close>

definition left_to_validator :: "Plan \<Rightarrow> bool" where
  "left_to_validator p \<longleftrightarrow>
     plan_task_id p \<noteq> [] \<and> strip (goal p) \<noteq> [] \<and> max_files_changed (constraints p) > 0 \<and>
     distinct (map s_id (steps p))"

text \<open>
  Two agent outputs for the example task: a plan with one code step and no test step,
  and a plan that only sets \<open>max_files_changed\<close> to 0.
\<close>

definition payload_without_test :: pydict where
  "payload_without_test =
     [(''goal'', JStr ''Implement retry''),
      (''steps'', JList [JObj [(''id'', JStr ''s1''), (''type'', JStr ''code''),
                               (''title'', JStr ''Write code'')]])]"

definition payload_zero_files :: pydict where
  "payload_zero_files = [(''constraints'', JObj [(''max_files_changed'', JInt 0)])]"

text \<open>The plan the normalisation makes of the first.\<close>

definition plan_without_test :: Plan where
  "plan_without_test =
     \<lparr>plan_id = ''plan_task_1_v1'', plan_task_id = ''task_1'', version = 1,
      goal = ''Implement retry'', assumptions = [],
      constraints = \<lparr>allowed_paths = [''src/**'', ''tests/**'', ''README.md''],
                     forbidden_paths = [''.git/**'', ''secrets/**''], max_files_changed = 20\<rparr>,
      questions = [],
      steps = [\<lparr>s_id = ''s1'', step_type = CODE, s_title = ''Write code'', command = None,
                 s_status = Step_PENDING\<rparr>,
               \<lparr>s_id = ''s_test'', step_type = TEST, s_title = ''Run tests'',
                 command = Some ''pytest -q'', s_status = Step_PENDING\<rparr>],
      approval_gate_before_run = True, approval_gate_before_commit = True,
      plan_created_at = ''2026-02-07T09:30:00Z'', created_by = ''opencode-plan-agent''\<rparr>"

chapter \<open>Properties\<close>

section \<open>The transition table\<close>

lemma table_permits_iff: "table_permits s t \<longleftrightarrow> t \<in> ALLOWED_TRANSITIONS s"
  by (cases s) (auto simp: table_permits_def)

lemma assert_transition_outside:
  "t \<notin> ALLOWED_TRANSITIONS (state task) \<Longrightarrow>
     assert_transition task t = Some (InvalidTransitionError
          (''Invalid transition: '' @ state_value (state task) @ '' -> '' @ state_value t))"
  by (simp add: assert_transition_def)

lemma assert_transition_None_allowed:
  "assert_transition task t = None \<Longrightarrow> t \<in> ALLOWED_TRANSITIONS (state task)"
  by (auto simp: assert_transition_def split: if_splits)

lemma assert_transition_is_invalid:
  "assert_transition task t = Some e \<Longrightarrow> is_InvalidTransition e"
  by (auto simp: assert_transition_def split: if_splits)

lemma transition_success_iff:
  "fst (transition t1 t2 task target etype msg pl) = None \<longleftrightarrow> assert_transition task target = None"
  by (simp add: transition_def Let_def split: option.splits)

lemma transition_raise:
  "assert_transition task target = Some e \<Longrightarrow>
     transition t1 t2 task target etype msg pl = (Some e, task)"
  by (simp add: transition_def)

lemma transition_success:
  "assert_transition task target = None \<Longrightarrow>
     transition t1 t2 task target etype msg pl =
       (None, task\<lparr>state := target,
                   event_log := event_log task @
                     [\<lparr>timestamp = t1, event_type = etype, message = msg,
                       payload =
                         (case pl of
                            None \<Rightarrow> [(''from'', JStr (state_value (state task))),
                                     (''to'', JStr (state_value target))]
                          | Some d \<Rightarrow> dict_update [(''from'', JStr (state_value (state task))),
                                                   (''to'', JStr (state_value target))] d)\<rparr>],
                   updated_at := t2\<rparr>)"
  by (auto simp: transition_def record_event_def Let_def dict_update_def split: option.splits)

text \<open>
  Claim C1. A transition succeeds only when the table permits the pair of the task's
  state and the target; the table permits nothing from DONE and nothing from
  CANCELLED; for a pair outside the table, \<open>transition\<close> raises
  \<open>InvalidTransitionError\<close> and the task (state, event log, every field) is as before.
\<close>

theorem transition_respects_table:
  "(fst (transition t1 t2 task target etype msg pl) = None \<longrightarrow>
      table_permits (state task) target \<and>
      state (snd (transition t1 t2 task target etype msg pl)) = target) \<and>
   \<not> table_permits DONE target \<and> \<not> table_permits CANCELLED target \<and>
   (\<not> table_permits (state task) target \<longrightarrow>
      (\<exists>m. transition t1 t2 task target etype msg pl = (Some (InvalidTransitionError m), task)))"
proof -
  have a: "fst (transition t1 t2 task target etype msg pl) = None \<longrightarrow>
      table_permits (state task) target \<and>
      state (snd (transition t1 t2 task target etype msg pl)) = target"
    by (auto simp: transition_success_iff table_permits_iff assert_transition_None_allowed
          transition_success)
  have b: "\<not> table_permits DONE target" "\<not> table_permits CANCELLED target"
    by (simp_all add: table_permits_iff)
  have c: "\<not> table_permits (state task) target \<longrightarrow>
      (\<exists>m. transition t1 t2 task target etype msg pl = (Some (InvalidTransitionError m), task))"
    using assert_transition_outside [of target task] transition_raise
    by (auto simp: table_permits_iff)
  from a b c show ?thesis by blast
qed

lemma demo_to_clarifying:
  "assert_transition demo_task CLARIFYING = None"
  by (simp add: assert_transition_def demo_task_def)

theorem transition_respects_table_witness:
  "fst (transition ''t1'' ''t2'' demo_task CLARIFYING ''state.change'' ''to clarifying'' None) = None \<and>
   table_permits (state demo_task) CLARIFYING \<and>
   state (snd (transition ''t1'' ''t2'' demo_task CLARIFYING ''state.change'' ''to clarifying'' None))
     = CLARIFYING \<and>
   \<not> table_permits (state demo_task) RUNNING \<and>
   (\<exists>m. transition ''t1'' ''t2'' demo_task RUNNING ''state.change'' ''to running'' None
          = (Some (InvalidTransitionError m), demo_task))"
proof -
  have ok: "fst (transition ''t1'' ''t2'' demo_task CLARIFYING ''state.change'' ''to clarifying'' None) = None"
    by (simp add: transition_success_iff demo_to_clarifying)
  have no: "\<not> table_permits (state demo_task) RUNNING"
    by (simp add: table_permits_iff demo_task_def)
  show ?thesis
    using ok no
      transition_respects_table [of "''t1''" "''t2''" demo_task CLARIFYING "''state.change''"
        "''to clarifying''" None]
      transition_respects_table [of "''t1''" "''t2''" demo_task RUNNING "''state.change''"
        "''to running''" None]
    by blast
qed

section \<open>Entry preconditions and the event of a transition\<close>

lemma assert_transition_None_iff:
  "assert_transition task target = None \<longleftrightarrow>
     target \<in> ALLOWED_TRANSITIONS (state task) \<and> entry_ok task target"
  by (auto simp: assert_transition_def entry_ok_def running_entry_ok_def is_approved_def
        open_required_questions_def filter_empty_conv split: if_splits)

lemma truthy_str_set: "truthy_str x \<Longrightarrow> x \<noteq> None"
  by (cases x) simp_all

lemma entry_ok_spec: "entry_ok task target \<Longrightarrow> spec_entry_ok task target"
  by (auto simp: entry_ok_def spec_entry_ok_def running_entry_ok_def dest: truthy_str_set)

lemma map_of_fold_update_other:
  "k \<notin> fst ` set other \<Longrightarrow>
     map_of (fold (\<lambda>(k, v) acc. AList.update k v acc) other d) k = map_of d k"
  by (induction other arbitrary: d) (auto simp: update_conv')

lemma dict_update_keeps:
  "k \<notin> fst ` set other \<Longrightarrow> map_of (dict_update d other) k = map_of d k"
  by (simp add: dict_update_def map_of_fold_update_other)

lemma transition_raises_invalid:
  assumes "\<not> entry_ok task target"
  shows "\<exists>m. transition t1 t2 task target etype msg pl = (Some (InvalidTransitionError m), task)"
proof -
  from assms have "assert_transition task target \<noteq> None"
    by (simp add: assert_transition_None_iff)
  then obtain e where e: "assert_transition task target = Some e" by blast
  then obtain m where "e = InvalidTransitionError m"
    using assert_transition_is_invalid [OF e] by (cases e) auto
  with e show ?thesis by (simp add: transition_raise)
qed

lemma transition_event:
  assumes ok: "assert_transition task target = None"
  shows "(case pl of None \<Rightarrow> True
          | Some d \<Rightarrow> ''from'' \<notin> fst ` set d \<and> ''to'' \<notin> fst ` set d) \<longrightarrow>
         map_of (payload (last (event_log (snd (transition t1 t2 task target etype msg pl)))))
           ''from'' = Some (JStr (state_value (state task))) \<and>
         map_of (payload (last (event_log (snd (transition t1 t2 task target etype msg pl)))))
           ''to'' = Some (JStr (state_value target))"
  unfolding transition_success [OF ok]
  by (cases pl) (simp_all add: dict_update_keeps)

text \<open>
  Claim C2, as the code has it. A transition into RUNNING succeeds only if the approval
  is satisfied, the plan is present and no required question is open; into TESTING only
  if \<open>diff_path\<close> is set; into DONE only if \<open>test_report_path\<close> is set (the code asks
  for a non-empty value, which implies set). Every violation raises
  \<open>InvalidTransitionError\<close> and leaves the task as it was. A successful transition
  sets the state to the target and appends exactly one event and nothing else but the
  time of the update: the event has the event type and the message the caller passed,
  and its payload is the dictionary of the from and to state values updated with the
  caller's payload, if any (the caller's keys overwrite). So the payload holds the from
  and to state values when the caller's payload has neither key.
\<close>

theorem transition_entry_preconditions:
  "(fst (transition t1 t2 task target etype msg pl) = None \<longrightarrow>
      entry_ok task target \<and> spec_entry_ok task target) \<and>
   (\<not> spec_entry_ok task target \<or> \<not> entry_ok task target \<longrightarrow>
      (\<exists>m. transition t1 t2 task target etype msg pl = (Some (InvalidTransitionError m), task))) \<and>
   (fst (transition t1 t2 task target etype msg pl) = None \<longrightarrow>
      snd (transition t1 t2 task target etype msg pl) =
        task\<lparr>state := target,
             event_log := event_log task @
               [\<lparr>timestamp = t1, event_type = etype, message = msg,
                 payload =
                   (case pl of
                      None \<Rightarrow> [(''from'', JStr (state_value (state task))),
                               (''to'', JStr (state_value target))]
                    | Some d \<Rightarrow> dict_update [(''from'', JStr (state_value (state task))),
                                             (''to'', JStr (state_value target))] d)\<rparr>],
             updated_at := t2\<rparr> \<and>
      ((case pl of None \<Rightarrow> True
        | Some d \<Rightarrow> ''from'' \<notin> fst ` set d \<and> ''to'' \<notin> fst ` set d) \<longrightarrow>
         map_of (payload (last (event_log (snd (transition t1 t2 task target etype msg pl)))))
           ''from'' = Some (JStr (state_value (state task))) \<and>
         map_of (payload (last (event_log (snd (transition t1 t2 task target etype msg pl)))))
           ''to'' = Some (JStr (state_value target))))"
proof -
  have a: "fst (transition t1 t2 task target etype msg pl) = None \<longrightarrow>
      entry_ok task target \<and> spec_entry_ok task target"
    by (simp add: transition_success_iff assert_transition_None_iff entry_ok_spec)
  have b: "\<not> spec_entry_ok task target \<or> \<not> entry_ok task target \<longrightarrow>
      (\<exists>m. transition t1 t2 task target etype msg pl = (Some (InvalidTransitionError m), task))"
    using transition_raises_invalid [of task target t1 t2 etype msg pl] entry_ok_spec [of task target]
    by blast
  have c: "fst (transition t1 t2 task target etype msg pl) = None \<longrightarrow>
      snd (transition t1 t2 task target etype msg pl) =
        task\<lparr>state := target,
             event_log := event_log task @
               [\<lparr>timestamp = t1, event_type = etype, message = msg,
                 payload =
                   (case pl of
                      None \<Rightarrow> [(''from'', JStr (state_value (state task))),
                               (''to'', JStr (state_value target))]
                    | Some d \<Rightarrow> dict_update [(''from'', JStr (state_value (state task))),
                                             (''to'', JStr (state_value target))] d)\<rparr>],
             updated_at := t2\<rparr>"
  proof
    assume "fst (transition t1 t2 task target etype msg pl) = None"
    then have "assert_transition task target = None"
      by (simp add: transition_success_iff)
    then show "snd (transition t1 t2 task target etype msg pl) =
        task\<lparr>state := target,
             event_log := event_log task @
               [\<lparr>timestamp = t1, event_type = etype, message = msg,
                 payload =
                   (case pl of
                      None \<Rightarrow> [(''from'', JStr (state_value (state task))),
                               (''to'', JStr (state_value target))]
                    | Some d \<Rightarrow> dict_update [(''from'', JStr (state_value (state task))),
                                             (''to'', JStr (state_value target))] d)\<rparr>],
             updated_at := t2\<rparr>"
      by (simp only: transition_success snd_conv)
  qed
  have d: "fst (transition t1 t2 task target etype msg pl) = None \<longrightarrow>
      ((case pl of None \<Rightarrow> True
        | Some d \<Rightarrow> ''from'' \<notin> fst ` set d \<and> ''to'' \<notin> fst ` set d) \<longrightarrow>
         map_of (payload (last (event_log (snd (transition t1 t2 task target etype msg pl)))))
           ''from'' = Some (JStr (state_value (state task))) \<and>
         map_of (payload (last (event_log (snd (transition t1 t2 task target etype msg pl)))))
           ''to'' = Some (JStr (state_value target)))"
    using transition_event [of task target pl t1 t2 etype msg]
    by (simp only: transition_success_iff) blast
  from a b c d show ?thesis by blast
qed

lemma demo_to_running:
  "assert_transition (demo_task\<lparr>state := WAIT_APPROVAL\<rparr>) RUNNING = None"
  by (simp add: assert_transition_def demo_task_def demo_plan_def is_approved_def
        open_required_questions_def)

lemma demo_not_testing: "\<not> spec_entry_ok (demo_task\<lparr>state := RUNNING\<rparr>) TESTING"
  by (simp add: spec_entry_ok_def demo_task_def)

theorem transition_entry_preconditions_witness:
  "fst (transition ''t1'' ''t2'' (demo_task\<lparr>state := WAIT_APPROVAL\<rparr>) RUNNING
          ''state.change'' ''to running'' (Some [(''attempt'', JStr ''1'')])) = None \<and>
   entry_ok (demo_task\<lparr>state := WAIT_APPROVAL\<rparr>) RUNNING \<and>
   snd (transition ''t1'' ''t2'' (demo_task\<lparr>state := WAIT_APPROVAL\<rparr>) RUNNING
          ''state.change'' ''to running'' (Some [(''attempt'', JStr ''1'')])) =
     demo_task\<lparr>state := RUNNING,
       event_log :=
         [\<lparr>timestamp = ''t1'', event_type = ''state.change'', message = ''to running'',
           payload = [(''from'', JStr ''WAIT_APPROVAL''), (''to'', JStr ''RUNNING''),
                      (''attempt'', JStr ''1'')]\<rparr>],
       updated_at := ''t2''\<rparr> \<and>
   map_of (payload (last (event_log (snd
       (transition ''t1'' ''t2'' (demo_task\<lparr>state := WAIT_APPROVAL\<rparr>) RUNNING
          ''state.change'' ''to running'' (Some [(''attempt'', JStr ''1'')]))))))
     ''from'' = Some (JStr ''WAIT_APPROVAL'') \<and>
   \<not> spec_entry_ok (demo_task\<lparr>state := RUNNING\<rparr>) TESTING \<and>
   (\<exists>m. transition ''t1'' ''t2'' (demo_task\<lparr>state := RUNNING\<rparr>) TESTING
           ''state.change'' ''to testing'' None
         = (Some (InvalidTransitionError m), demo_task\<lparr>state := RUNNING\<rparr>))"
proof -
  have ok: "fst (transition ''t1'' ''t2'' (demo_task\<lparr>state := WAIT_APPROVAL\<rparr>) RUNNING
          ''state.change'' ''to running'' (Some [(''attempt'', JStr ''1'')])) = None"
    by (simp add: transition_success_iff demo_to_running)
  have log: "event_log (demo_task\<lparr>state := WAIT_APPROVAL\<rparr>) = []"
    by (simp add: demo_task_def)
  have st: "state_value (state (demo_task\<lparr>state := WAIT_APPROVAL\<rparr>)) = ''WAIT_APPROVAL''"
    by simp
  have upd: "dict_update [(''from'', JStr ''WAIT_APPROVAL''), (''to'', JStr ''RUNNING'')]
               [(''attempt'', JStr ''1'')] =
             [(''from'', JStr ''WAIT_APPROVAL''), (''to'', JStr ''RUNNING''),
              (''attempt'', JStr ''1'')]"
    by (simp add: dict_update_def)
  have w1: "entry_ok (demo_task\<lparr>state := WAIT_APPROVAL\<rparr>) RUNNING \<and>
   snd (transition ''t1'' ''t2'' (demo_task\<lparr>state := WAIT_APPROVAL\<rparr>) RUNNING
          ''state.change'' ''to running'' (Some [(''attempt'', JStr ''1'')])) =
     demo_task\<lparr>state := RUNNING,
       event_log :=
         [\<lparr>timestamp = ''t1'', event_type = ''state.change'', message = ''to running'',
           payload = [(''from'', JStr ''WAIT_APPROVAL''), (''to'', JStr ''RUNNING''),
                      (''attempt'', JStr ''1'')]\<rparr>],
       updated_at := ''t2''\<rparr> \<and>
   map_of (payload (last (event_log (snd
       (transition ''t1'' ''t2'' (demo_task\<lparr>state := WAIT_APPROVAL\<rparr>) RUNNING
          ''state.change'' ''to running'' (Some [(''attempt'', JStr ''1'')]))))))
     ''from'' = Some (JStr ''WAIT_APPROVAL'')"
    using ok
      transition_entry_preconditions [of "''t1''" "''t2''" "demo_task\<lparr>state := WAIT_APPROVAL\<rparr>"
        RUNNING "''state.change''" "''to running''" "Some [(''attempt'', JStr ''1'')]"]
    unfolding log st by (simp add: upd del: Task.simps)
  have w2: "\<exists>m. transition ''t1'' ''t2'' (demo_task\<lparr>state := RUNNING\<rparr>) TESTING
           ''state.change'' ''to testing'' None
         = (Some (InvalidTransitionError m), demo_task\<lparr>state := RUNNING\<rparr>)"
    using demo_not_testing
      transition_entry_preconditions [of "''t1''" "''t2''" "demo_task\<lparr>state := RUNNING\<rparr>"
        TESTING "''state.change''" "''to testing''" None]
    by blast
  from ok w1 w2 demo_not_testing show ?thesis by blast
qed

text \<open>
  The claim as worded fails where the caller passes another event type, or a payload
  that carries the key \<open>from\<close>: the transition succeeds, and the one event it appends is
  not a \<open>state.change\<close> event and does not hold the from state.
\<close>

theorem transition_event_counterexample:
  "fst (transition ''t1'' ''t2'' demo_task CLARIFYING ''custom'' ''m'' (Some [(''from'', JNull)]))
     = None \<and>
   event_type (last (event_log (snd
       (transition ''t1'' ''t2'' demo_task CLARIFYING ''custom'' ''m'' (Some [(''from'', JNull)])))))
     \<noteq> ''state.change'' \<and>
   map_of (payload (last (event_log (snd
       (transition ''t1'' ''t2'' demo_task CLARIFYING ''custom'' ''m'' (Some [(''from'', JNull)]))))))
     ''from'' \<noteq> Some (JStr (state_value (state demo_task)))"
  by (simp add: transition_success [OF demo_to_clarifying] dict_update_def)

section \<open>File-change policy\<close>

lemma matches_any_iff:
  "matches_any f path pats \<longleftrightarrow> (\<exists>g \<in> set pats. f path g)"
  by (simp add: matches_any_def list_ex_iff)

lemma check_files_None_iff:
  "check_files f c fs = None \<longleftrightarrow>
     (\<forall>p \<in> set fs. \<not> (\<exists>g \<in> set (forbidden_paths c). f (normalize_path p) g)) \<and>
     (allowed_paths c \<noteq> [] \<longrightarrow>
        (\<forall>p \<in> set fs. \<exists>g \<in> set (allowed_paths c). f (normalize_path p) g))"
  by (induction fs) (auto simp: Let_def matches_any_iff)

lemma check_files_append:
  "check_files f c pre = None \<Longrightarrow> check_files f c (pre @ fs) = check_files f c fs"
  by (induction pre) (auto simp: Let_def split: if_splits)

lemma check_files_error:
  "check_files f c fs = Some e \<Longrightarrow> \<exists>m. e = PolicyViolationError m"
  by (induction fs) (auto simp: Let_def split: if_splits)

lemma enforce_None_iff:
  "enforce_file_policy f changed c = None \<longleftrightarrow> code_policy_ok f changed c"
  by (auto simp: enforce_file_policy_def code_policy_ok_def check_files_None_iff)

lemma enforce_error:
  "enforce_file_policy f changed c = Some e \<Longrightarrow> \<exists>m. e = PolicyViolationError m"
  by (auto simp: enforce_file_policy_def dest: check_files_error split: if_splits)

lemma enforce_count:
  "int (length changed) > max_files_changed c \<Longrightarrow>
      enforce_file_policy f changed c = Some (PolicyViolationError
          (''Changed files exceeded max_files_changed: '' @ str_int (int (length changed)) @
           '' > '' @ str_int (max_files_changed c)))"
  by (simp add: enforce_file_policy_def)

lemma enforce_forbidden_first:
  "int (length (pre @ p # post)) \<le> max_files_changed c \<Longrightarrow> check_files f c pre = None \<Longrightarrow>
      \<exists>g \<in> set (forbidden_paths c). f (normalize_path p) g \<Longrightarrow>
      enforce_file_policy f (pre @ p # post) c =
        Some (PolicyViolationError (''File is forbidden by policy: '' @ normalize_path p))"
  by (auto simp: enforce_file_policy_def check_files_append Let_def matches_any_iff)

lemma enforce_allowed_second:
  "int (length (pre @ p # post)) \<le> max_files_changed c \<Longrightarrow> check_files f c pre = None \<Longrightarrow>
      \<not> (\<exists>g \<in> set (forbidden_paths c). f (normalize_path p) g) \<Longrightarrow>
      allowed_paths c \<noteq> [] \<Longrightarrow> \<not> (\<exists>g \<in> set (allowed_paths c). f (normalize_path p) g) \<Longrightarrow>
      enforce_file_policy f (pre @ p # post) c =
        Some (PolicyViolationError (''File is outside allowed paths: '' @ normalize_path p))"
  by (auto simp: enforce_file_policy_def check_files_append Let_def matches_any_iff)

lemma enforce_src_example:
  "enforce_file_policy (fnmatch bracket) [''docs/readme.md'']
       \<lparr>allowed_paths = [''src/**''], forbidden_paths = [], max_files_changed = 5\<rparr> =
     Some (PolicyViolationError ''File is outside allowed paths: docs/readme.md'')"
  by (simp add: enforce_file_policy_def Let_def matches_any_def fnmatch_def normalize_path_def)

text \<open>
  Claim C3, as the code has it. \<open>enforce_file_policy\<close> returns normally if and only if
  the number of changed files is at most \<open>max_files_changed\<close>, no normalised path is
  matched by a forbidden glob and, when \<open>allowed_paths\<close> is not empty, every normalised
  path is matched by an allowed glob. Every exception it raises is a
  \<open>PolicyViolationError\<close>. The count is checked first; then the files are taken in
  order, and for each file the forbidden globs are checked before the allowed ones, so
  the first file that breaks a rule decides the message. An allow-list of the single
  glob \<open>src/**\<close> rejects \<open>docs/readme.md\<close>.
\<close>

theorem enforce_file_policy_rules:
  "(enforce_file_policy f changed c = None \<longleftrightarrow> code_policy_ok f changed c) \<and>
   (\<forall>e. enforce_file_policy f changed c = Some e \<longrightarrow> (\<exists>m. e = PolicyViolationError m)) \<and>
   (int (length changed) > max_files_changed c \<longrightarrow>
      enforce_file_policy f changed c = Some (PolicyViolationError
          (''Changed files exceeded max_files_changed: '' @ str_int (int (length changed)) @
           '' > '' @ str_int (max_files_changed c)))) \<and>
   (int (length (pre @ p # post)) \<le> max_files_changed c \<and> check_files f c pre = None \<and>
      (\<exists>g \<in> set (forbidden_paths c). f (normalize_path p) g) \<longrightarrow>
      enforce_file_policy f (pre @ p # post) c =
        Some (PolicyViolationError (''File is forbidden by policy: '' @ normalize_path p))) \<and>
   (int (length (pre @ p # post)) \<le> max_files_changed c \<and> check_files f c pre = None \<and>
      \<not> (\<exists>g \<in> set (forbidden_paths c). f (normalize_path p) g) \<and>
      allowed_paths c \<noteq> [] \<and> \<not> (\<exists>g \<in> set (allowed_paths c). f (normalize_path p) g) \<longrightarrow>
      enforce_file_policy f (pre @ p # post) c =
        Some (PolicyViolationError (''File is outside allowed paths: '' @ normalize_path p))) \<and>
   enforce_file_policy (fnmatch bracket) [''docs/readme.md'']
       \<lparr>allowed_paths = [''src/**''], forbidden_paths = [], max_files_changed = 5\<rparr> =
     Some (PolicyViolationError ''File is outside allowed paths: docs/readme.md'')"
  using enforce_None_iff [of f changed c] enforce_error [of f changed c]
    enforce_count [of c changed f] enforce_forbidden_first [of pre p post c f]
    enforce_allowed_second [of pre p post c f] enforce_src_example [of bracket]
  by blast

theorem enforce_file_policy_rules_witness:
  "code_policy_ok (fnmatch (\<lambda>name pat. False)) [''src/service.py'', ''tests/test_service.py'']
     \<lparr>allowed_paths = [''src/**'', ''tests/**''], forbidden_paths = [''secrets/**''],
      max_files_changed = 5\<rparr> \<and>
   enforce_file_policy (fnmatch (\<lambda>name pat. False)) [''src/service.py'', ''tests/test_service.py'']
     \<lparr>allowed_paths = [''src/**'', ''tests/**''], forbidden_paths = [''secrets/**''],
      max_files_changed = 5\<rparr> = None \<and>
   int (length [''src/a.py'', ''src/b.py'']) > 1 \<and>
   enforce_file_policy (fnmatch (\<lambda>name pat. False)) [''src/a.py'', ''src/b.py'']
     \<lparr>allowed_paths = [''src/**''], forbidden_paths = [], max_files_changed = 1\<rparr> =
     Some (PolicyViolationError ''Changed files exceeded max_files_changed: 2 > 1'') \<and>
   (\<exists>g \<in> set [''secrets/**'']. fnmatch (\<lambda>name pat. False) (normalize_path ''secrets/token.txt'') g) \<and>
   enforce_file_policy (fnmatch (\<lambda>name pat. False)) ([] @ ''secrets/token.txt'' # [''docs/a.md''])
     \<lparr>allowed_paths = [''src/**''], forbidden_paths = [''secrets/**''], max_files_changed = 5\<rparr> =
     Some (PolicyViolationError ''File is forbidden by policy: secrets/token.txt'') \<and>
   \<not> (\<exists>g \<in> set [''src/**'']. fnmatch (\<lambda>name pat. False) (normalize_path ''docs/a.md'') g) \<and>
   enforce_file_policy (fnmatch (\<lambda>name pat. False)) ([] @ ''docs/a.md'' # [''secrets/token.txt''])
     \<lparr>allowed_paths = [''src/**''], forbidden_paths = [''secrets/**''], max_files_changed = 5\<rparr> =
     Some (PolicyViolationError ''File is outside allowed paths: docs/a.md'')"
proof -
  let ?f = "fnmatch (\<lambda>name pat. False)"
  let ?c = "\<lparr>allowed_paths = [''src/**''], forbidden_paths = [''secrets/**''], max_files_changed = 5\<rparr>"
  have ok: "code_policy_ok ?f [''src/service.py'', ''tests/test_service.py'']
     \<lparr>allowed_paths = [''src/**'', ''tests/**''], forbidden_paths = [''secrets/**''],
      max_files_changed = 5\<rparr>"
    by (simp add: code_policy_ok_def fnmatch_def normalize_path_def)
  have cnt: "int (length [''src/a.py'', ''src/b.py'']) > 1" by simp
  have s21: "str_int (int (length [''src/a.py'', ''src/b.py''])) = ''2''" "str_int 1 = ''1''"
    by (simp_all add: str_int_def digit_char_def)
  have fb: "\<exists>g \<in> set [''secrets/**'']. ?f (normalize_path ''secrets/token.txt'') g"
    by (simp add: fnmatch_def normalize_path_def)
  have nfb: "\<not> (\<exists>g \<in> set [''secrets/**'']. ?f (normalize_path ''docs/a.md'') g)"
    by (simp add: fnmatch_def normalize_path_def)
  have nal: "\<not> (\<exists>g \<in> set [''src/**'']. ?f (normalize_path ''docs/a.md'') g)"
    by (simp add: fnmatch_def normalize_path_def)
  have n1: "normalize_path ''secrets/token.txt'' = ''secrets/token.txt''"
    "normalize_path ''docs/a.md'' = ''docs/a.md''"
    by (simp_all add: normalize_path_def)
  have w1: "enforce_file_policy ?f [''src/service.py'', ''tests/test_service.py'']
     \<lparr>allowed_paths = [''src/**'', ''tests/**''], forbidden_paths = [''secrets/**''],
      max_files_changed = 5\<rparr> = None"
    using ok enforce_file_policy_rules [of ?f "[''src/service.py'', ''tests/test_service.py'']"
      "\<lparr>allowed_paths = [''src/**'', ''tests/**''], forbidden_paths = [''secrets/**''],
        max_files_changed = 5\<rparr>"]
    by blast
  have w2: "enforce_file_policy ?f [''src/a.py'', ''src/b.py'']
     \<lparr>allowed_paths = [''src/**''], forbidden_paths = [], max_files_changed = 1\<rparr> =
     Some (PolicyViolationError ''Changed files exceeded max_files_changed: 2 > 1'')"
    using cnt s21 enforce_file_policy_rules [of ?f "[''src/a.py'', ''src/b.py'']"
      "\<lparr>allowed_paths = [''src/**''], forbidden_paths = [], max_files_changed = 1\<rparr>"]
    by simp
  have w3: "enforce_file_policy ?f ([] @ ''secrets/token.txt'' # [''docs/a.md'']) ?c =
     Some (PolicyViolationError ''File is forbidden by policy: secrets/token.txt'')"
    using fb n1 enforce_file_policy_rules [of ?f _ ?c "[]" "''secrets/token.txt''" "[''docs/a.md'']"]
    by simp
  have w4: "enforce_file_policy ?f ([] @ ''docs/a.md'' # [''secrets/token.txt'']) ?c =
     Some (PolicyViolationError ''File is outside allowed paths: docs/a.md'')"
    using nfb nal n1 enforce_file_policy_rules [of ?f _ ?c "[]" "''docs/a.md''" "[''secrets/token.txt'']"]
    by simp
  from ok w1 cnt w2 fb w3 nal w4 show ?thesis by (intro conjI)
qed

text \<open>
  The claim as worded fails for an empty allow-list: the path is matched by no allowed
  glob, and the policy returns normally.
\<close>

theorem enforce_file_policy_counterexample:
  "enforce_file_policy (fnmatch (\<lambda>name pat. False)) [''docs/readme.md'']
       \<lparr>allowed_paths = [], forbidden_paths = [], max_files_changed = 20\<rparr> = None \<and>
   \<not> spec_policy_ok (fnmatch (\<lambda>name pat. False)) [''docs/readme.md'']
       \<lparr>allowed_paths = [], forbidden_paths = [], max_files_changed = 20\<rparr>"
  by (simp add: enforce_file_policy_def spec_policy_ok_def)

text \<open>
  Claim C10. With an empty \<open>allowed_paths\<close> the allowed-path rule is not applied: the
  policy returns normally exactly when the count and the forbidden globs allow it. With
  an empty \<open>forbidden_paths\<close> nothing is forbidden.
\<close>

theorem empty_allow_list_allows_all:
  "(allowed_paths c = [] \<longrightarrow>
      (enforce_file_policy f changed c = None \<longleftrightarrow>
         int (length changed) \<le> max_files_changed c \<and>
         (\<forall>p \<in> set changed. \<not> (\<exists>g \<in> set (forbidden_paths c). f (normalize_path p) g)))) \<and>
   (forbidden_paths c = [] \<longrightarrow>
      (enforce_file_policy f changed c = None \<longleftrightarrow>
         int (length changed) \<le> max_files_changed c \<and>
         (allowed_paths c \<noteq> [] \<longrightarrow>
            (\<forall>p \<in> set changed. \<exists>g \<in> set (allowed_paths c). f (normalize_path p) g))))"
  by (auto simp: enforce_None_iff code_policy_ok_def)

theorem empty_allow_list_allows_all_witness:
  "allowed_paths \<lparr>allowed_paths = [], forbidden_paths = [''secrets/**''], max_files_changed = 5\<rparr> = [] \<and>
   enforce_file_policy (fnmatch (\<lambda>name pat. False)) [''docs/readme.md'', ''anything/else.txt'']
     \<lparr>allowed_paths = [], forbidden_paths = [''secrets/**''], max_files_changed = 5\<rparr> = None \<and>
   forbidden_paths \<lparr>allowed_paths = [], forbidden_paths = [], max_files_changed = 5\<rparr> = [] \<and>
   enforce_file_policy (fnmatch (\<lambda>name pat. False)) [''secrets/token.txt'']
     \<lparr>allowed_paths = [], forbidden_paths = [], max_files_changed = 5\<rparr> = None"
proof -
  let ?f = "fnmatch (\<lambda>name pat. False)"
  have nf: "\<forall>p \<in> set [''docs/readme.md'', ''anything/else.txt''].
      \<not> (\<exists>g \<in> set [''secrets/**'']. ?f (normalize_path p) g)"
    by (simp add: fnmatch_def normalize_path_def)
  have w1: "enforce_file_policy ?f [''docs/readme.md'', ''anything/else.txt'']
     \<lparr>allowed_paths = [], forbidden_paths = [''secrets/**''], max_files_changed = 5\<rparr> = None"
    using nf empty_allow_list_allows_all [of
        "\<lparr>allowed_paths = [], forbidden_paths = [''secrets/**''], max_files_changed = 5\<rparr>"
        ?f "[''docs/readme.md'', ''anything/else.txt'']"]
    by simp
  have w2: "enforce_file_policy ?f [''secrets/token.txt'']
     \<lparr>allowed_paths = [], forbidden_paths = [], max_files_changed = 5\<rparr> = None"
    using empty_allow_list_allows_all [of
        "\<lparr>allowed_paths = [], forbidden_paths = [], max_files_changed = 5\<rparr>"
        ?f "[''secrets/token.txt'']"]
    by simp
  from w1 w2 show ?thesis by simp
qed

section \<open>Plan validator\<close>

lemma steps_loop_types:
  "snd (steps_loop ss e seen ty) = ty \<union> step_type ` set ss"
  by (induction ss arbitrary: e seen ty) (auto simp: Let_def)

lemma steps_loop_mono:
  "set e \<subseteq> set (fst (steps_loop ss e seen ty))"
proof (induction ss arbitrary: e seen ty)
  case Nil
  then show ?case by simp
next
  case (Cons s ss)
  show ?case
    apply (simp only: steps_loop.simps Let_def)
    apply (rule subset_trans [OF _ Cons.IH])
    apply auto
    done
qed

lemma steps_loop_nonempty:
  "e \<noteq> [] \<Longrightarrow> fst (steps_loop ss e seen ty) \<noteq> []"
  using steps_loop_mono [of e ss seen ty] by (cases e) auto

lemma steps_loop_Nil_iff:
  "fst (steps_loop ss e seen ty) = [] \<longleftrightarrow>
     e = [] \<and> (\<forall>s \<in> set ss. s_id s \<noteq> [] \<and> s_id s \<notin> seen) \<and> distinct (map s_id ss) \<and>
     (\<forall>s \<in> set ss. step_type s = TEST \<longrightarrow> has_command (command s))"
proof (induction ss arbitrary: e seen ty)
  case Nil
  then show ?case by simp
next
  case (Cons s ss)
  consider (a) "s_id s = []" | (b) "s_id s \<noteq> []" "s_id s \<in> seen"
    | (c) "s_id s \<noteq> []" "s_id s \<notin> seen" "step_type s = TEST \<and> \<not> has_command (command s)"
    | (d) "s_id s \<noteq> []" "s_id s \<notin> seen" "\<not> (step_type s = TEST \<and> \<not> has_command (command s))"
    by blast
  then show ?case
  proof cases
    case a
    then show ?thesis by (simp add: Let_def Cons.IH)
  next
    case b
    then show ?thesis by (simp add: Let_def Cons.IH)
  next
    case c
    then show ?thesis by (simp add: Let_def Cons.IH)
  next
    case d
    have "(\<forall>x \<in> set ss. s_id x \<noteq> [] \<and> s_id x \<notin> insert (s_id s) seen) \<longleftrightarrow>
          (\<forall>x \<in> set ss. s_id x \<noteq> [] \<and> s_id x \<notin> seen) \<and> s_id s \<notin> s_id ` set ss"
    proof -
      have "\<And>x. s_id x \<notin> insert (s_id s) seen \<longleftrightarrow> s_id x \<noteq> s_id s \<and> s_id x \<notin> seen"
        by simp
      moreover have "s_id s \<notin> s_id ` set ss \<longleftrightarrow> (\<forall>x \<in> set ss. s_id x \<noteq> s_id s)"
        by (simp add: image_iff) metis
      ultimately show ?thesis by (simp only:) blast
    qed
    with d show ?thesis by (simp add: Let_def Cons.IH) blast
  qed
qed

lemma head_errors_Nil_iff:
  "head_errors p = [] \<longleftrightarrow>
     plan_id p \<noteq> [] \<and> plan_task_id p \<noteq> [] \<and> strip (goal p) \<noteq> [] \<and>
     allowed_paths (constraints p) \<noteq> [] \<and> max_files_changed (constraints p) > 0"
  by (auto simp: head_errors_def)

lemma validate_plan_Nil_iff: "validate_plan p = [] \<longleftrightarrow> code_plan_rules p"
proof (cases "steps p = []")
  case True
  then show ?thesis by (simp add: validate_plan_def code_plan_rules_def)
next
  case False
  obtain e1 ty where sl: "steps_loop (steps p) (head_errors p) {} {} = (e1, ty)"
    by (cases "steps_loop (steps p) (head_errors p) {} {}")
  have ty: "ty = step_type ` set (steps p)"
    using steps_loop_types [of "steps p" "head_errors p" "{}" "{}"] sl by simp
  have e1: "e1 = [] \<longleftrightarrow> head_errors p = [] \<and> (\<forall>s \<in> set (steps p). s_id s \<noteq> []) \<and>
      distinct (map s_id (steps p)) \<and>
     (\<forall>s \<in> set (steps p). step_type s = TEST \<longrightarrow> has_command (command s))"
    using steps_loop_Nil_iff [of "steps p" "head_errors p" "{}" "{}"] sl by simp
  have vp: "validate_plan p = [] \<longleftrightarrow> e1 = [] \<and> CODE \<in> ty \<and> TEST \<in> ty"
    using False sl by (simp add: validate_plan_def Let_def)
  have c: "CODE \<in> ty \<longleftrightarrow> (\<exists>s \<in> set (steps p). step_type s = CODE)"
    unfolding ty by force
  have t: "TEST \<in> ty \<longleftrightarrow> (\<exists>s \<in> set (steps p). step_type s = TEST)"
    unfolding ty by force
  show ?thesis
    unfolding vp e1 c t code_plan_rules_def head_errors_Nil_iff using False
    by simp (rule iffI; elim conjE; intro conjI; assumption)
qed

lemma steps_loop_mem_mono:
  "m \<in> set e \<Longrightarrow> m \<in> set (fst (steps_loop ss e seen ty))"
  using steps_loop_mono [of e ss seen ty] by blast

lemma steps_loop_reports_missing_id:
  "s \<in> set ss \<Longrightarrow> s_id s = [] \<Longrightarrow>
     ''every step must have an id'' \<in> set (fst (steps_loop ss e seen ty))"
proof (induction ss arbitrary: e seen ty)
  case Nil
  then show ?case by simp
next
  case (Cons a ss)
  show ?case
  proof (cases "a = s")
    case True
    with Cons.prems show ?thesis
      by (simp add: Let_def steps_loop_mem_mono)
  next
    case False
    with Cons.prems have "s \<in> set ss" by simp
    from Cons.IH [OF this Cons.prems(2)] show ?thesis
      by (simp only: steps_loop.simps Let_def)
  qed
qed

lemma steps_loop_reports_command:
  "s \<in> set ss \<Longrightarrow> step_type s = TEST \<Longrightarrow> \<not> has_command (command s) \<Longrightarrow>
     ''test step '' @ [CHR 0x27] @ s_id s @ [CHR 0x27] @ '' requires command''
       \<in> set (fst (steps_loop ss e seen ty))"
proof (induction ss arbitrary: e seen ty)
  case Nil
  then show ?case by simp
next
  case (Cons a ss)
  show ?case
  proof (cases "a = s")
    case True
    with Cons.prems show ?thesis
      by (simp add: Let_def steps_loop_mem_mono)
  next
    case False
    with Cons.prems have "s \<in> set ss" by simp
    from Cons.IH [OF this Cons.prems(2,3)] show ?thesis
      by (simp only: steps_loop.simps Let_def)
  qed
qed

lemma steps_loop_reports_seen:
  "s \<in> set ss \<Longrightarrow> s_id s \<noteq> [] \<Longrightarrow> s_id s \<in> seen \<Longrightarrow>
     ''duplicate step id: '' @ s_id s \<in> set (fst (steps_loop ss e seen ty))"
proof (induction ss arbitrary: e seen ty)
  case Nil
  then show ?case by simp
next
  case (Cons a ss)
  show ?case
  proof (cases "a = s")
    case True
    with Cons.prems show ?thesis
      by (simp add: Let_def steps_loop_mem_mono)
  next
    case False
    with Cons.prems have mem: "s \<in> set ss" by simp
    have seen': "s_id s \<in> (if s_id a \<noteq> [] \<and> s_id a \<notin> seen then insert (s_id a) seen else seen)"
      using Cons.prems(3) by simp
    from Cons.IH [OF mem Cons.prems(2) seen'] show ?thesis
      by (simp only: steps_loop.simps Let_def)
  qed
qed

lemma steps_loop_reports_duplicate:
  "\<not> distinct (filter (\<lambda>i. i \<noteq> []) (map s_id ss)) \<Longrightarrow>
     \<exists>i. ''duplicate step id: '' @ i \<in> set (fst (steps_loop ss e seen ty))"
proof (induction ss arbitrary: e seen ty)
  case Nil
  then show ?case by simp
next
  case (Cons a ss)
  show ?case
  proof (cases "s_id a \<noteq> [] \<and> s_id a \<in> s_id ` set ss")
    case True
    then obtain s where s: "s \<in> set ss" "s_id s = s_id a" "s_id s \<noteq> []" by force
    have seen': "s_id s \<in> (if s_id a \<noteq> [] \<and> s_id a \<notin> seen then insert (s_id a) seen else seen)"
      using s by simp
    from steps_loop_reports_seen [OF s(1) s(3) seen'] show ?thesis
      by (simp only: steps_loop.simps Let_def) blast
  next
    case False
    with Cons.prems have "\<not> distinct (filter (\<lambda>i. i \<noteq> []) (map s_id ss))"
      by (auto split: if_splits)
    from Cons.IH [OF this] show ?thesis
      by (simp only: steps_loop.simps Let_def)
  qed
qed

lemma validate_plan_no_steps:
  "steps p = [] \<Longrightarrow> validate_plan p = head_errors p @ [''at least one plan step is required'']"
  by (simp add: validate_plan_def)

lemma validate_plan_steps:
  "steps p \<noteq> [] \<Longrightarrow>
     validate_plan p =
       fst (steps_loop (steps p) (head_errors p) {} {}) @
       (if \<exists>s \<in> set (steps p). step_type s = CODE then [] else [''plan requires at least one code step'']) @
       (if \<exists>s \<in> set (steps p). step_type s = TEST then [] else [''plan requires at least one test step''])"
proof -
  assume ne: "steps p \<noteq> []"
  obtain e1 ty where sl: "steps_loop (steps p) (head_errors p) {} {} = (e1, ty)"
    by (cases "steps_loop (steps p) (head_errors p) {} {}")
  have ty: "ty = step_type ` set (steps p)"
    using steps_loop_types [of "steps p" "head_errors p" "{}" "{}"] sl by simp
  have c: "CODE \<in> ty \<longleftrightarrow> (\<exists>s \<in> set (steps p). step_type s = CODE)"
    unfolding ty by force
  have t: "TEST \<in> ty \<longleftrightarrow> (\<exists>s \<in> set (steps p). step_type s = TEST)"
    unfolding ty by force
  show ?thesis
    using ne sl c t by (simp add: validate_plan_def Let_def)
qed

lemma validate_plan_head:
  "set (head_errors p) \<subseteq> set (validate_plan p)"
proof (cases "steps p = []")
  case True
  then show ?thesis by (auto simp: validate_plan_no_steps)
next
  case False
  show ?thesis
    using steps_loop_mono [of "head_errors p" "steps p" "{}" "{}"]
    by (auto simp: validate_plan_steps [OF False])
qed

lemma assert_plan_valid_iff:
  "(\<exists>m. assert_plan_valid p = Some (PlanValidationError m)) \<longleftrightarrow> validate_plan p \<noteq> []"
  by (simp add: assert_plan_valid_def Let_def)

lemma assert_plan_valid_None: "assert_plan_valid p = None \<longleftrightarrow> validate_plan p = []"
  by (simp add: assert_plan_valid_def Let_def)

text \<open>
  Claim C7, as the code has it. \<open>validate_plan\<close> returns no error if and only if
  \<open>plan_id\<close> and \<open>task_id\<close> are non-empty, \<open>goal\<close> is not blank, \<open>allowed_paths\<close> is
  non-empty, \<open>max_files_changed > 0\<close>, there is a step, every step id is non-empty,
  step ids are unique, there is a code step and a test step, and every test step has a
  command that is not blank. Every violated rule is reported in the one list, except
  that a plan without steps gets the message about the missing steps and nothing about
  code or test steps. \<open>assert_plan_valid\<close> raises \<open>PlanValidationError\<close> exactly when
  the list is non-empty.
\<close>

theorem validate_plan_rules:
  "(validate_plan p = [] \<longleftrightarrow> code_plan_rules p) \<and>
   (plan_id p = [] \<longrightarrow> ''plan_id is required'' \<in> set (validate_plan p)) \<and>
   (plan_task_id p = [] \<longrightarrow> ''task_id is required'' \<in> set (validate_plan p)) \<and>
   (strip (goal p) = [] \<longrightarrow> ''goal is required'' \<in> set (validate_plan p)) \<and>
   (allowed_paths (constraints p) = [] \<longrightarrow>
      ''constraints.allowed_paths must not be empty'' \<in> set (validate_plan p)) \<and>
   (max_files_changed (constraints p) \<le> 0 \<longrightarrow>
      ''constraints.max_files_changed must be > 0'' \<in> set (validate_plan p)) \<and>
   (steps p = [] \<longrightarrow>
      validate_plan p = head_errors p @ [''at least one plan step is required'']) \<and>
   (\<forall>s \<in> set (steps p). s_id s = [] \<longrightarrow>
      ''every step must have an id'' \<in> set (validate_plan p)) \<and>
   (\<not> distinct (filter (\<lambda>i. i \<noteq> []) (map s_id (steps p))) \<longrightarrow>
      (\<exists>i. ''duplicate step id: '' @ i \<in> set (validate_plan p))) \<and>
   (\<forall>s \<in> set (steps p). step_type s = TEST \<and> \<not> has_command (command s) \<longrightarrow>
      ''test step '' @ [CHR 0x27] @ s_id s @ [CHR 0x27] @ '' requires command''
        \<in> set (validate_plan p)) \<and>
   (steps p \<noteq> [] \<and> \<not> (\<exists>s \<in> set (steps p). step_type s = CODE) \<longrightarrow>
      ''plan requires at least one code step'' \<in> set (validate_plan p)) \<and>
   (steps p \<noteq> [] \<and> \<not> (\<exists>s \<in> set (steps p). step_type s = TEST) \<longrightarrow>
      ''plan requires at least one test step'' \<in> set (validate_plan p)) \<and>
   ((\<exists>m. assert_plan_valid p = Some (PlanValidationError m)) \<longleftrightarrow> validate_plan p \<noteq> []) \<and>
   (assert_plan_valid p = None \<longleftrightarrow> validate_plan p = [])"
proof -
  have hd: "\<And>m. m \<in> set (head_errors p) \<Longrightarrow> m \<in> set (validate_plan p)"
    using validate_plan_head [of p] by blast
  have h1: "plan_id p = [] \<longrightarrow> ''plan_id is required'' \<in> set (validate_plan p)"
    by (auto intro!: hd simp: head_errors_def)
  have h2: "plan_task_id p = [] \<longrightarrow> ''task_id is required'' \<in> set (validate_plan p)"
    by (auto intro!: hd simp: head_errors_def)
  have h3: "strip (goal p) = [] \<longrightarrow> ''goal is required'' \<in> set (validate_plan p)"
    by (auto intro!: hd simp: head_errors_def)
  have h4: "allowed_paths (constraints p) = [] \<longrightarrow>
      ''constraints.allowed_paths must not be empty'' \<in> set (validate_plan p)"
    by (auto intro!: hd simp: head_errors_def)
  have h5: "max_files_changed (constraints p) \<le> 0 \<longrightarrow>
      ''constraints.max_files_changed must be > 0'' \<in> set (validate_plan p)"
    by (auto intro!: hd simp: head_errors_def)
  have h6: "steps p = [] \<longrightarrow>
      validate_plan p = head_errors p @ [''at least one plan step is required'']"
    by (simp add: validate_plan_no_steps)
  have ne: "\<And>s. s \<in> set (steps p) \<Longrightarrow> steps p \<noteq> []" by auto
  have h7: "\<forall>s \<in> set (steps p). s_id s = [] \<longrightarrow>
      ''every step must have an id'' \<in> set (validate_plan p)"
  proof (intro ballI impI)
    fix s assume s: "s \<in> set (steps p)" "s_id s = []"
    show "''every step must have an id'' \<in> set (validate_plan p)"
      using steps_loop_reports_missing_id [OF s, of "head_errors p" "{}" "{}"]
      by (simp add: validate_plan_steps [OF ne [OF s(1)]])
  qed
  have h8: "\<not> distinct (filter (\<lambda>i. i \<noteq> []) (map s_id (steps p))) \<longrightarrow>
      (\<exists>i. ''duplicate step id: '' @ i \<in> set (validate_plan p))"
  proof
    assume d: "\<not> distinct (filter (\<lambda>i. i \<noteq> []) (map s_id (steps p)))"
    then have n: "steps p \<noteq> []" by auto
    from steps_loop_reports_duplicate [OF d, of "head_errors p" "{}" "{}"]
    obtain i where "''duplicate step id: '' @ i \<in> set (fst (steps_loop (steps p) (head_errors p) {} {}))"
      by blast
    then have "''duplicate step id: '' @ i \<in> set (validate_plan p)"
      by (simp add: validate_plan_steps [OF n])
    then show "\<exists>i. ''duplicate step id: '' @ i \<in> set (validate_plan p)" by blast
  qed
  have h9: "\<forall>s \<in> set (steps p). step_type s = TEST \<and> \<not> has_command (command s) \<longrightarrow>
      ''test step '' @ [CHR 0x27] @ s_id s @ [CHR 0x27] @ '' requires command''
        \<in> set (validate_plan p)"
  proof (intro ballI impI)
    fix s assume s: "s \<in> set (steps p)" and t: "step_type s = TEST \<and> \<not> has_command (command s)"
    from t have t1: "step_type s = TEST" and t2: "\<not> has_command (command s)" by simp_all
    show "''test step '' @ [CHR 0x27] @ s_id s @ [CHR 0x27] @ '' requires command''
        \<in> set (validate_plan p)"
      using steps_loop_reports_command [OF s t1 t2, of "head_errors p" "{}" "{}"]
      by (simp add: validate_plan_steps [OF ne [OF s]])
  qed
  have h10: "steps p \<noteq> [] \<and> \<not> (\<exists>s \<in> set (steps p). step_type s = CODE) \<longrightarrow>
      ''plan requires at least one code step'' \<in> set (validate_plan p)"
    by (auto simp: validate_plan_steps)
  have h11: "steps p \<noteq> [] \<and> \<not> (\<exists>s \<in> set (steps p). step_type s = TEST) \<longrightarrow>
      ''plan requires at least one test step'' \<in> set (validate_plan p)"
    by (auto simp: validate_plan_steps)
  show ?thesis
    using validate_plan_Nil_iff [of p] h1 h2 h3 h4 h5 h6 h7 h8 h9 h10 h11
      assert_plan_valid_iff [of p] assert_plan_valid_None [of p]
    by (intro conjI)
qed

lemma strip_goal: "strip ''goal'' = ''goal''" "strip '' '' = []" "strip ''pytest -q'' = ''pytest -q''"
  by (simp_all add: strip_def py_isspace_def)

lemma demo_plan_rules: "code_plan_rules demo_plan"
  by (simp add: code_plan_rules_def demo_plan_def strip_goal)

theorem validate_plan_rules_witness:
  "code_plan_rules demo_plan \<and> validate_plan demo_plan = [] \<and> assert_plan_valid demo_plan = None \<and>
   strip (goal (demo_plan\<lparr>goal := '' ''\<rparr>)) = [] \<and>
   ''goal is required'' \<in> set (validate_plan (demo_plan\<lparr>goal := '' ''\<rparr>)) \<and>
   (\<exists>m. assert_plan_valid (demo_plan\<lparr>goal := '' ''\<rparr>) = Some (PlanValidationError m)) \<and>
   steps (demo_plan\<lparr>steps := []\<rparr>) = [] \<and>
   validate_plan (demo_plan\<lparr>steps := []\<rparr>) = [''at least one plan step is required'']"
proof -
  have g: "strip (goal (demo_plan\<lparr>goal := '' ''\<rparr>)) = []"
    by (simp add: strip_goal)
  have s: "steps (demo_plan\<lparr>steps := []\<rparr>) = []" by simp
  have hs: "head_errors (demo_plan\<lparr>steps := []\<rparr>) = []"
    by (simp add: head_errors_def demo_plan_def strip_goal)
  have w1: "validate_plan demo_plan = [] \<and> assert_plan_valid demo_plan = None"
    using demo_plan_rules validate_plan_rules [of demo_plan] by blast
  note r = validate_plan_rules [of "demo_plan\<lparr>goal := '' ''\<rparr>"]
  have w2a: "''goal is required'' \<in> set (validate_plan (demo_plan\<lparr>goal := '' ''\<rparr>))"
    using g r [THEN conjunct2, THEN conjunct2, THEN conjunct2, THEN conjunct1] by simp
  then have "validate_plan (demo_plan\<lparr>goal := '' ''\<rparr>) \<noteq> []" by auto
  then have w2b: "\<exists>m. assert_plan_valid (demo_plan\<lparr>goal := '' ''\<rparr>) = Some (PlanValidationError m)"
    using r [THEN conjunct2, THEN conjunct2, THEN conjunct2, THEN conjunct2, THEN conjunct2,
        THEN conjunct2, THEN conjunct2, THEN conjunct2, THEN conjunct2, THEN conjunct2,
        THEN conjunct2, THEN conjunct2, THEN conjunct1]
    by simp
  note w2 = conjI [OF w2a w2b]
  have w3: "validate_plan (demo_plan\<lparr>steps := []\<rparr>) = [''at least one plan step is required'']"
    using s hs validate_plan_rules [of "demo_plan\<lparr>steps := []\<rparr>"] by simp
  from demo_plan_rules w1 g w2 s w3 show ?thesis by (intro conjI) simp_all
qed

text \<open>
  The claim as worded fails for a goal of one space: every rule of the claim holds (the
  goal is non-empty), and \<open>validate_plan\<close> reports an error.
\<close>

theorem validate_plan_counterexample:
  "spec_plan_rules (demo_plan\<lparr>goal := '' ''\<rparr>) \<and>
   validate_plan (demo_plan\<lparr>goal := '' ''\<rparr>) = [''goal is required'']"
  by (simp add: spec_plan_rules_def validate_plan_def head_errors_def demo_plan_def strip_goal
        Let_def)

section \<open>Orchestrator.run\_task\<close>

lemma record_event_frame:
  "state (record_event t1 t2 et msg pl task) = state task"
  "execution (record_event t1 t2 et msg pl task) = execution task"
  "task_id (record_event t1 t2 et msg pl task) = task_id task"
  "plan (record_event t1 t2 et msg pl task) = plan task"
  "artifacts (record_event t1 t2 et msg pl task) = artifacts task"
  by (simp_all add: record_event_def)

lemma record_event_log:
  "event_log (record_event t1 t2 et msg pl task) =
     event_log task @ [\<lparr>timestamp = t1, event_type = et, message = msg,
                         payload = (case pl of None \<Rightarrow> [] | Some d \<Rightarrow> d)\<rparr>]"
  by (simp add: record_event_def)

lemma transition_cases:
  assumes "transition t1 t2 task tg et msg pl = (r, t')"
  shows "(\<exists>e. r = Some e \<and> t' = task) \<or>
         (r = None \<and> state t' = tg \<and> execution t' = execution task \<and> task_id t' = task_id task)"
proof (cases "assert_transition task tg")
  case None
  with assms show ?thesis by (auto simp: transition_success)
next
  case (Some e)
  with assms show ?thesis by (auto simp: transition_raise)
qed

lemma keeps_attempt_refl: "keeps_attempt t t"
  by (simp add: keeps_attempt_def)

lemma keeps_attempt_trans: "keeps_attempt a b \<Longrightarrow> keeps_attempt b c \<Longrightarrow> keeps_attempt a c"
  by (simp add: keeps_attempt_def)

lemma keeps_attempt_I:
  "task_id t' = task_id t \<Longrightarrow> execution t' = execution t \<Longrightarrow> keeps_attempt t t'"
  by (simp add: keeps_attempt_def)

lemma transition_keeps:
  "transition t1 t2 task tg et msg pl = (r, t') \<Longrightarrow> keeps_attempt task t'"
  by (drule transition_cases) (auto simp: keeps_attempt_def)

lemma transition_state:
  "transition t1 t2 task tg et msg pl = (Some e, t') \<Longrightarrow> t' = task"
  "transition t1 t2 task tg et msg pl = (None, t') \<Longrightarrow> state t' = tg"
  by (auto dest: transition_cases)

lemma run_testing_frame:
  assumes "run_testing env task pl n = (r, t', n')"
  shows "keeps_attempt task t' \<and> (r \<noteq> None \<longrightarrow> state t' \<in> {state task, TESTING})"
proof -
  let ?task1 = "record_event (utc_now_iso env n) (utc_now_iso env (n + 1))
                    ''build.completed'' ''Build step completed''
                    (Some [(''diff_path'', (case diff_path (artifacts task) of
                                              None \<Rightarrow> JNull | Some d \<Rightarrow> JStr d)),
                           (''changed_files'', JInt (int (length (changed_files (artifacts task)))))])
                    task"
  have k1: "keeps_attempt task ?task1" "state ?task1 = state task"
    by (simp_all add: keeps_attempt_def record_event_frame)
  obtain r2 task2 where tr: "transition (utc_now_iso env (n + 2)) (utc_now_iso env (n + 3)) ?task1 TESTING
                ''state.change'' ''Entering TESTING'' None = (r2, task2)"
    by (cases "transition (utc_now_iso env (n + 2)) (utc_now_iso env (n + 3)) ?task1 TESTING
                ''state.change'' ''Entering TESTING'' None")
  have k2: "keeps_attempt task task2"
    using transition_keeps [OF tr] k1(1) by (rule keeps_attempt_trans [rotated])
  show ?thesis
  proof (cases r2)
    case (Some e)
    from tr [unfolded Some] have "task2 = ?task1" by (rule transition_state(1))
    with assms tr Some k1 show ?thesis
      by (simp add: run_testing_def Let_def)
  next
    case None
    from tr [unfolded None] have st2: "state task2 = TESTING" by (rule transition_state(2))
    show ?thesis
    proof (cases "run_tests env task2 0 (filter (\<lambda>step. step_type step = TEST) (steps pl)) []")
      case (Inl e)
      with assms tr None k2 st2 show ?thesis
        by (simp add: run_testing_def Let_def)
    next
      case (Inr res)
      obtain results all_passed where res: "res = (results, all_passed)" by (cases res)
      obtain w n2 where wr: "write_test_report env (n + 4) (task_id task2) results = (w, n2)"
        by (cases "write_test_report env (n + 4) (task_id task2) results")
      show ?thesis
      proof (cases w)
        case (Inl e)
        with assms tr None Inr res wr k2 st2 show ?thesis
          by (simp add: run_testing_def Let_def)
      next
        case wpath: (Inr path)
        let ?task3 = "task2\<lparr>artifacts := (artifacts task2)
                                          \<lparr>test_results := results, test_report_path := Some path\<rparr>\<rparr>"
        let ?task4 = "?task3\<lparr>execution := (execution ?task3)\<lparr>last_error :=
                         (if all_passed then None else Some ''One or more tests failed'')\<rparr>\<rparr>"
        have k4: "keeps_attempt task ?task4" "state ?task4 = TESTING"
          using k2 st2 by (simp_all add: keeps_attempt_def)
        obtain r5 task5 where t5: "transition (utc_now_iso env n2) (utc_now_iso env (n2 + 1)) ?task4
              (if all_passed then DONE else FAILED) ''state.change''
              (if all_passed then ''Task completed'' else ''Task failed in tests'') None = (r5, task5)"
          by (cases "transition (utc_now_iso env n2) (utc_now_iso env (n2 + 1)) ?task4
              (if all_passed then DONE else FAILED) ''state.change''
              (if all_passed then ''Task completed'' else ''Task failed in tests'') None")
        have k5: "keeps_attempt task task5"
          using transition_keeps [OF t5] k4(1) by (rule keeps_attempt_trans [rotated])
        have s5: "r5 \<noteq> None \<longrightarrow> state task5 = TESTING"
        proof (cases r5)
          case None
          then show ?thesis by simp
        next
          case (Some e)
          from t5 [unfolded Some] have "task5 = ?task4" by (rule transition_state(1))
          with k4(2) show ?thesis by simp
        qed
        have "(r, t') = (r5, task5)"
          using assms tr None Inr res wr wpath t5
          by (cases all_passed; cases r5) (simp_all add: run_testing_def Let_def)
        with k5 s5 show ?thesis by simp
      qed
    qed
  qed
qed


lemma run_body_frame:
  assumes "run_body env task n = (r, t', n')"
  shows "keeps_attempt task t' \<and> (r \<noteq> None \<longrightarrow> state t' \<in> {state task, RUNNING, TESTING})"
proof -
  obtain r1 task1 where tr: "transition (utc_now_iso env n) (utc_now_iso env (n + 1)) task RUNNING
             ''state.change'' ''Entering RUNNING'' None = (r1, task1)"
    by (cases "transition (utc_now_iso env n) (utc_now_iso env (n + 1)) task RUNNING
             ''state.change'' ''Entering RUNNING'' None")
  have k1: "keeps_attempt task task1" by (rule transition_keeps [OF tr])
  show ?thesis
  proof (cases r1)
    case (Some e)
    from tr [unfolded Some] have "task1 = task" by (rule transition_state(1))
    with assms tr Some show ?thesis
      by (simp add: run_body_def keeps_attempt_refl)
  next
    case None
    from tr [unfolded None] have st1: "state task1 = RUNNING" by (rule transition_state(2))
    show ?thesis
    proof (cases "plan task1")
      case noplan: None
      with assms tr None k1 st1 show ?thesis by (simp add: run_body_def)
    next
      case (Some pl)
      show ?thesis
      proof (cases "assert_plan_valid pl")
        case invalid: (Some e)
        with assms tr None Some k1 st1 show ?thesis by (simp add: run_body_def)
      next
        case valid: None
        show ?thesis
        proof (cases "build env task1")
          case (Inl e)
          with assms tr None Some valid k1 st1 show ?thesis by (simp add: run_body_def)
        next
          case (Inr build_result)
          let ?task2 = "task1\<lparr>artifacts := (artifacts task1)
                                         \<lparr>diff_path := Some (b_diff_path build_result),
                                          changed_files := b_changed_files build_result\<rparr>\<rparr>"
          have k2: "keeps_attempt task ?task2" "state ?task2 = RUNNING"
            using k1 st1 by (simp_all add: keeps_attempt_def)
          show ?thesis
          proof (cases "enforce_file_policy (fnm env) (changed_files (artifacts ?task2)) (constraints pl)")
            case violation: (Some e)
            with assms tr None Some valid Inr k2 show ?thesis
              by (auto simp: run_body_def Let_def)
          next
            case ok: None
            with assms tr None Some valid Inr
            have "run_testing env ?task2 pl (n + 2) = (r, t', n')"
              by (simp add: run_body_def Let_def)
            from run_testing_frame [OF this] k2 show ?thesis
              by (auto intro: keeps_attempt_trans)
          qed
        qed
      qed
    qed
  qed
qed

lemma run_failed_props:
  "state (run_failed env exc task n) =
     (if state task \<in> {FAILED, DONE, CANCELLED} then state task else FAILED)"
  "last_error (execution (run_failed env exc task n)) = Some (str_exc exc)"
  "keeps_attempt task (run_failed env exc task n)"
  "\<exists>ev. event_log (run_failed env exc task n) = butlast (event_log (run_failed env exc task n)) @ [ev] \<and>
        event_type ev = ''run.failed'' \<and> message ev = ''Task run failed'' \<and>
        payload ev = [(''error'', JStr (str_exc exc))]"
proof -
  let ?task1 = "task\<lparr>execution := (execution task)\<lparr>last_error := Some (str_exc exc)\<rparr>\<rparr>"
  obtain r t where tr: "transition (utc_now_iso env n) (utc_now_iso env (n + 1)) ?task1 FAILED
                       ''state.change'' ''Task failed'' None = (r, t)"
    by (cases "transition (utc_now_iso env n) (utc_now_iso env (n + 1)) ?task1 FAILED
                       ''state.change'' ''Task failed'' None")
  from transition_cases [OF tr]
  have c: "(\<exists>e. r = Some e \<and> t = ?task1) \<or>
           (r = None \<and> state t = FAILED \<and> execution t = execution ?task1 \<and> task_id t = task_id ?task1)" .
  show "state (run_failed env exc task n) =
     (if state task \<in> {FAILED, DONE, CANCELLED} then state task else FAILED)"
    using c tr by (auto simp: run_failed_def Let_def record_event_frame)
  show "last_error (execution (run_failed env exc task n)) = Some (str_exc exc)"
    using c tr by (auto simp: run_failed_def Let_def record_event_frame)
  show "keeps_attempt task (run_failed env exc task n)"
    using c tr by (auto simp: run_failed_def Let_def record_event_frame keeps_attempt_def)
  show "\<exists>ev. event_log (run_failed env exc task n) = butlast (event_log (run_failed env exc task n)) @ [ev] \<and>
        event_type ev = ''run.failed'' \<and> message ev = ''Task run failed'' \<and>
        payload ev = [(''error'', JStr (str_exc exc))]"
    using c tr by (auto simp: run_failed_def Let_def record_event_log)
qed

lemma store_save_cases:
  assumes "store_save env st t = (r, st')"
  shows "(r = None \<and> st' = st(task_id t \<mapsto> Record t)) \<or>
         (\<exists>e. r = Some e \<and> (st' = st \<or> st' = st(task_id t \<mapsto> torn)))"
  using assms
  by (auto simp: store_save_def save_opened_def save_dumped_def split: option.splits)

lemma store_get_Inr:
  "store_get env st tid = Inr task \<longleftrightarrow>
     st tid = Some (Record task) \<and> open_read env tid = None"
  by (auto simp: store_get_def split: option.splits stored.splits)

lemma run_task_get_raises:
  "store_get env st tid = Inl e \<Longrightarrow> run_task env st tid = (Inl e, st)"
  by (simp add: run_task_def)

lemma run_task_cap:
  "store_get env st tid = Inr task \<Longrightarrow> cap_reached task \<Longrightarrow>
     run_task env st tid =
       (Inl (OrchestratorError
          (''Task exceeded max attempts: '' @ str_int (attempt (execution task)) @ ''/'' @
           str_int (max_attempts (execution task)))), st)"
  by (simp add: run_task_def cap_reached_def)

lemma run_started_frame:
  "task_id (run_started env task) = task_id task"
  "state (run_started env task) = state task"
  "attempt (execution (run_started env task)) = attempt (execution task) + 1"
  "max_attempts (execution (run_started env task)) = max_attempts (execution task)"
  by (simp_all add: run_started_def record_event_frame Let_def)

lemma run_task_unfold:
  "store_get env st tid = Inr task \<Longrightarrow> \<not> cap_reached task \<Longrightarrow>
     run_task env st tid =
       (case run_body env (run_started env task) 2 of
          (None, task3, n) \<Rightarrow>
            (case store_save env st task3 of
               (Some e, st') \<Rightarrow> (Inl e, st')
             | (None, st') \<Rightarrow> (Inr task3, st'))
        | (Some exc, task3, n) \<Rightarrow>
            (case store_save env st (run_failed env exc task3 n) of
               (Some e, st') \<Rightarrow> (Inl e, st')
             | (None, st') \<Rightarrow> (Inl exc, st')))"
  by (auto simp: run_task_def cap_reached_def run_started_def Let_def)

text \<open>
  The task that a call which was not turned away hands to \<open>store.save\<close>, and how the
  call ends, by the outcome of the \<open>try\<close> block and of the save.
\<close>

lemma run_task_outcomes:
  assumes g: "store_get env st tid = Inr task" and cap: "\<not> cap_reached task"
    and rb: "run_body env (run_started env task) 2 = (r3, task3, n)"
    and t: "t = (case r3 of None \<Rightarrow> task3 | Some exc \<Rightarrow> run_failed env exc task3 n)"
  shows "keeps_attempt (run_started env task) t"
    and "store_save env st t = (None, st') \<Longrightarrow>
           run_task env st tid = ((case r3 of None \<Rightarrow> Inr task3 | Some exc \<Rightarrow> Inl exc), st')"
    and "store_save env st t = (Some e, st') \<Longrightarrow> run_task env st tid = (Inl e, st')"
proof -
  have k: "keeps_attempt (run_started env task) task3"
    using run_body_frame [OF rb] by simp
  show "keeps_attempt (run_started env task) t"
  proof (cases r3)
    case None
    with k t show ?thesis by simp
  next
    case (Some exc)
    have "keeps_attempt task3 (run_failed env exc task3 n)" by (rule run_failed_props(3))
    with k t Some show ?thesis by (auto intro: keeps_attempt_trans)
  qed
  show "store_save env st t = (None, st') \<Longrightarrow>
           run_task env st tid = ((case r3 of None \<Rightarrow> Inr task3 | Some exc \<Rightarrow> Inl exc), st')"
    using rb t by (cases r3) (simp_all add: run_task_unfold [of env st tid task, OF g cap])
  show "store_save env st t = (Some e, st') \<Longrightarrow> run_task env st tid = (Inl e, st')"
    using rb t by (cases r3) (simp_all add: run_task_unfold [of env st tid task, OF g cap])
qed




lemma run_task_attempt:
  assumes g: "store_get env st tid = Inr task" and cap: "\<not> cap_reached task"
  shows "\<exists>t. task_id t = task_id task \<and>
           attempt (execution t) = attempt (execution task) + 1 \<and>
           max_attempts (execution t) = max_attempts (execution task) \<and>
           ((store_save env st t = (None, st(task_id task \<mapsto> Record t)) \<and>
             snd (run_task env st tid) = st(task_id task \<mapsto> Record t) \<and>
             (\<forall>r. fst (run_task env st tid) = Inr r \<longrightarrow> r = t)) \<or>
            (\<exists>e. fst (store_save env st t) = Some e \<and> fst (run_task env st tid) = Inl e \<and>
                 (snd (run_task env st tid) = st \<or>
                  snd (run_task env st tid) = st(task_id task \<mapsto> torn))))"
proof -
  obtain r3 task3 n where rb: "run_body env (run_started env task) 2 = (r3, task3, n)"
    by (cases "run_body env (run_started env task) 2")
  define t where "t = (case r3 of None \<Rightarrow> task3 | Some exc \<Rightarrow> run_failed env exc task3 n)"
  note o = run_task_outcomes [OF g cap rb t_def]
  have k: "task_id t = task_id task" "attempt (execution t) = attempt (execution task) + 1"
    "max_attempts (execution t) = max_attempts (execution task)"
    using o(1) by (simp_all add: keeps_attempt_def run_started_frame)
  obtain rs st2 where sv: "store_save env st t = (rs, st2)"
    by (cases "store_save env st t")
  show ?thesis
  proof (cases rs)
    case None
    from store_save_cases [OF sv] None have st2: "st2 = st(task_id task \<mapsto> Record t)"
      by (simp add: k(1))
    have rt: "run_task env st tid = ((case r3 of None \<Rightarrow> Inr task3 | Some exc \<Rightarrow> Inl exc), st2)"
      by (rule o(2) [OF sv [unfolded None]])
    have "\<forall>r. fst (run_task env st tid) = Inr r \<longrightarrow> r = t"
      unfolding rt t_def by (cases r3) simp_all
    with k sv None st2 rt show ?thesis by auto
  next
    case (Some e)
    have rt: "run_task env st tid = (Inl e, st2)"
      by (rule o(3) [OF sv [unfolded Some]])
    from store_save_cases [OF sv] Some
    have "st2 = st \<or> st2 = st(task_id task \<mapsto> torn)" by (auto simp: k(1))
    with k sv Some rt show ?thesis by auto
  qed
qed

subsection \<open>Runs of the example tasks\<close>

lemma demo_get:
  "store_get demo_env (Map.empty(''task_1'' \<mapsto> Record task)) ''task_1'' = Inr task"
  "store_get full_disk_env (Map.empty(''task_1'' \<mapsto> Record task)) ''task_1'' = Inr task"
  by (simp_all add: store_get_def demo_env_def full_disk_env_def)

lemma demo_save:
  "store_save demo_env st t = (None, st(task_id t \<mapsto> Record t))"
  "store_save full_disk_env st t = (Some (OtherException ''OSError''), st(task_id t \<mapsto> torn))"
  by (simp_all add: store_save_def demo_env_def full_disk_env_def save_dumped_def save_opened_def)







lemma overrun_run:
  "map_sum id (\<lambda>t. (state t, attempt (execution t)))
     (fst (run_task demo_env (Map.empty(''task_1'' \<mapsto> Record overrun_task)) ''task_1'')) =
     Inr (DONE, 4)"
  by (simp add: run_task_def store_get_def store_save_def save_dumped_def overrun_task_def
        waiting_task_def demo_task_def demo_plan_def run_body_def run_testing_def
        transition_def assert_transition_def record_event_def Let_def run_failed_def
        demo_env_def is_approved_def open_required_questions_def assert_plan_valid_def
        validate_plan_def head_errors_def strip_def py_isspace_def enforce_file_policy_def
        matches_any_def fnmatch_def normalize_path_def write_test_report_def
        test_result_to_dict_def)

lemma exhausted_cap: "cap_reached exhausted_task"
  by (simp add: cap_reached_def exhausted_task_def demo_task_def)


lemma waiting_no_cap: "\<not> cap_reached waiting_task"
  by (simp add: cap_reached_def waiting_task_def)

lemma waiting_fields: "task_id waiting_task = ''task_1''" "attempt (execution waiting_task) = 0"
  "max_attempts (execution waiting_task) = 3"
  by (simp_all add: waiting_task_def demo_task_def)

subsection \<open>Error paths\<close>




subsection \<open>Attempt accounting\<close>

text \<open>
  Claim C6, as the code has it. A call whose \<open>store.get\<close> returns the task and that the
  retry cap does not reject hands to \<open>store.save\<close> the task with \<open>execution.attempt\<close>
  incremented by exactly one, whether the run went through or raised. When the save
  goes through, that task is what is persisted, and what is returned if the call
  returns. When the save raises, the call raises the save's exception and the
  incremented attempt is not persisted: the task's file is as before, or torn. The cap
  is tested only for a task in state FAILED: with \<open>attempt \<ge> max_attempts\<close> there, the
  call raises \<open>OrchestratorError\<close> and the store, so also the attempt counter, stays as
  it was. A call whose \<open>store.get\<close> raises leaves the store as it was.
\<close>

theorem run_task_attempt_accounting:
  "(store_get env st tid = Inr task \<and> \<not> cap_reached task \<longrightarrow>
      (\<exists>t. task_id t = task_id task \<and>
           attempt (execution t) = attempt (execution task) + 1 \<and>
           max_attempts (execution t) = max_attempts (execution task) \<and>
           ((store_save env st t = (None, st(task_id task \<mapsto> Record t)) \<and>
             snd (run_task env st tid) = st(task_id task \<mapsto> Record t) \<and>
             (\<forall>r. fst (run_task env st tid) = Inr r \<longrightarrow> r = t)) \<or>
            (\<exists>e. fst (store_save env st t) = Some e \<and> fst (run_task env st tid) = Inl e \<and>
                 (snd (run_task env st tid) = st \<or>
                  snd (run_task env st tid) = st(task_id task \<mapsto> torn)))))) \<and>
   (store_get env st tid = Inr task \<and> cap_reached task \<longrightarrow>
      (\<exists>m. run_task env st tid = (Inl (OrchestratorError m), st))) \<and>
   (cap_reached task \<longleftrightarrow>
      state task = FAILED \<and> attempt (execution task) \<ge> max_attempts (execution task)) \<and>
   (store_get env st tid = Inl e \<longrightarrow> run_task env st tid = (Inl e, st))"
  using run_task_attempt [of env st tid task] run_task_cap [of env st tid task]
    run_task_get_raises [of env st tid e]
  by (auto simp: cap_reached_def)

theorem run_task_attempt_accounting_witness:
  "store_get demo_env (Map.empty(''task_1'' \<mapsto> Record waiting_task)) ''task_1'' = Inr waiting_task \<and>
   \<not> cap_reached waiting_task \<and>
   (\<exists>t. snd (run_task demo_env (Map.empty(''task_1'' \<mapsto> Record waiting_task)) ''task_1'') =
               (Map.empty(''task_1'' \<mapsto> Record waiting_task))(''task_1'' \<mapsto> Record t) \<and>
         attempt (execution t) = 1) \<and>
   store_get demo_env (Map.empty(''task_1'' \<mapsto> Record exhausted_task)) ''task_1'' =
     Inr exhausted_task \<and>
   cap_reached exhausted_task \<and>
   (\<exists>m. run_task demo_env (Map.empty(''task_1'' \<mapsto> Record exhausted_task)) ''task_1'' =
          (Inl (OrchestratorError m), Map.empty(''task_1'' \<mapsto> Record exhausted_task)))"
proof -
  let ?st = "Map.empty(''task_1'' \<mapsto> Record waiting_task)"
  have w1: "\<exists>t. snd (run_task demo_env ?st ''task_1'') = ?st(''task_1'' \<mapsto> Record t) \<and>
         attempt (execution t) = 1"
    using demo_get(1) [of waiting_task] waiting_no_cap waiting_fields
      run_task_attempt_accounting [of demo_env ?st "''task_1''" waiting_task]
    by (auto simp: demo_save)
  have w2: "\<exists>m. run_task demo_env (Map.empty(''task_1'' \<mapsto> Record exhausted_task)) ''task_1'' =
          (Inl (OrchestratorError m), Map.empty(''task_1'' \<mapsto> Record exhausted_task))"
    using demo_get(1) [of exhausted_task] exhausted_cap
      run_task_attempt_accounting [of demo_env "Map.empty(''task_1'' \<mapsto> Record exhausted_task)"
        "''task_1''" exhausted_task]
    by blast
  from demo_get(1) [of waiting_task] waiting_no_cap w1 demo_get(1) [of exhausted_task]
    exhausted_cap w2
  show ?thesis by (intro conjI)
qed

text \<open>
  The claim as worded fails twice. The call that the cap rejects does not increment the
  attempt counter: the stored task still has \<open>attempt = 3\<close>. And the cap does not hold
  regardless of the state: an approved task in WAIT\_APPROVAL with \<open>attempt = 3\<close> and
  \<open>max_attempts = 3\<close> is run as a fourth attempt, and the call returns the task DONE.
\<close>

theorem run_task_attempt_counterexample:
  "is_OrchestratorError
     (case fst (run_task demo_env (Map.empty(''task_1'' \<mapsto> Record exhausted_task)) ''task_1'') of
        Inl e \<Rightarrow> e | Inr t \<Rightarrow> OtherException []) \<and>
   snd (run_task demo_env (Map.empty(''task_1'' \<mapsto> Record exhausted_task)) ''task_1'') ''task_1''
     = Some (Record exhausted_task) \<and>
   attempt (execution exhausted_task) = 3 \<and>
   attempt (execution overrun_task) \<ge> max_attempts (execution overrun_task) \<and>
   map_sum id (\<lambda>t. (state t, attempt (execution t)))
     (fst (run_task demo_env (Map.empty(''task_1'' \<mapsto> Record overrun_task)) ''task_1'')) =
     Inr (DONE, 4)"
proof -
  note c = run_task_cap [of demo_env "Map.empty(''task_1'' \<mapsto> Record exhausted_task)" "''task_1''"
        exhausted_task, OF demo_get(1) exhausted_cap]
  have o: "attempt (execution overrun_task) \<ge> max_attempts (execution overrun_task)"
    by (simp add: overrun_task_def)
  have a: "attempt (execution exhausted_task) = 3" by (simp add: exhausted_task_def)
  from c o a overrun_run show ?thesis by simp
qed

section \<open>Rule-based intent classifier\<close>

lemma no_match_empty:
  "\<not> match_any u [] reject_patterns"
  "\<not> match_any u [] approve_patterns"
  "\<not> match_any u [] clarify_patterns"
  by (simp_all add: match_any_def re_search_def reject_patterns_def approve_patterns_def
        clarify_patterns_def lits_def)

lemma match_any_nonempty:
  "match_any u n reject_patterns \<or> match_any u n approve_patterns \<or>
   match_any u n clarify_patterns \<Longrightarrow> n \<noteq> []"
  using no_match_empty [of u] by auto

lemma classify_empty:
  "normalize u text = [] \<Longrightarrow>
     classify u text =
       \<lparr>intent = UNKNOWN, confidence = 0, reason = ''empty message'', raw = None\<rparr>"
  by (simp add: classify_def)

lemma classify_reject:
  "match_any u (normalize u text) reject_patterns \<Longrightarrow>
     classify u text =
       \<lparr>intent = REJECT, confidence = 0.95, reason = ''matched reject rule'', raw = None\<rparr>"
  using match_any_nonempty [of u "normalize u text"] by (simp add: classify_def Let_def)

lemma classify_approve:
  "\<not> match_any u (normalize u text) reject_patterns \<Longrightarrow>
   match_any u (normalize u text) approve_patterns \<Longrightarrow>
     classify u text =
       \<lparr>intent = APPROVE, confidence = 0.95, reason = ''matched approve rule'', raw = None\<rparr>"
  using match_any_nonempty [of u "normalize u text"] by (simp add: classify_def Let_def)

lemma classify_clarify:
  "\<not> match_any u (normalize u text) reject_patterns \<Longrightarrow>
   \<not> match_any u (normalize u text) approve_patterns \<Longrightarrow>
   match_any u (normalize u text) clarify_patterns \<Longrightarrow>
     classify u text =
       \<lparr>intent = CLARIFY, confidence = 0.6, reason = ''matched clarify rule'', raw = None\<rparr>"
  using match_any_nonempty [of u "normalize u text"] by (simp add: classify_def Let_def)

lemma classify_unknown:
  "\<not> match_any u (normalize u text) reject_patterns \<Longrightarrow>
   \<not> match_any u (normalize u text) approve_patterns \<Longrightarrow>
   \<not> match_any u (normalize u text) clarify_patterns \<Longrightarrow>
   normalize u text \<noteq> [] \<Longrightarrow>
     classify u text =
       \<lparr>intent = UNKNOWN, confidence = 0.2, reason = ''no rule matched'', raw = None\<rparr>"
  by (simp add: classify_def Let_def)

text \<open>
  Claim C9, as the code has it. The text is normalised first (stripped, lower-cased,
  whitespace runs collapsed), and the rule sets are tested on the normalised text in the
  order reject, approve, clarify: a reject match gives reject with confidence 0.95,
  otherwise an approve match gives approve with 0.95, otherwise a clarify match gives
  clarify with 0.6. A text that matches no pattern gives unknown with confidence 0.2 when
  its normalised form is not empty, and unknown with confidence 0 when it is empty.
\<close>

theorem classify_rules:
  "(match_any u (normalize u text) reject_patterns \<longrightarrow>
      classify u text =
        \<lparr>intent = REJECT, confidence = 0.95, reason = ''matched reject rule'', raw = None\<rparr>) \<and>
   (\<not> match_any u (normalize u text) reject_patterns \<and>
    match_any u (normalize u text) approve_patterns \<longrightarrow>
      classify u text =
        \<lparr>intent = APPROVE, confidence = 0.95, reason = ''matched approve rule'', raw = None\<rparr>) \<and>
   (\<not> match_any u (normalize u text) reject_patterns \<and>
    \<not> match_any u (normalize u text) approve_patterns \<and>
    match_any u (normalize u text) clarify_patterns \<longrightarrow>
      classify u text =
        \<lparr>intent = CLARIFY, confidence = 0.6, reason = ''matched clarify rule'', raw = None\<rparr>) \<and>
   (\<not> match_any u (normalize u text) reject_patterns \<and>
    \<not> match_any u (normalize u text) approve_patterns \<and>
    \<not> match_any u (normalize u text) clarify_patterns \<and> normalize u text \<noteq> [] \<longrightarrow>
      classify u text =
        \<lparr>intent = UNKNOWN, confidence = 0.2, reason = ''no rule matched'', raw = None\<rparr>) \<and>
   (normalize u text = [] \<longrightarrow>
      classify u text =
        \<lparr>intent = UNKNOWN, confidence = 0, reason = ''empty message'', raw = None\<rparr>)"
  using classify_reject [of u "text"] classify_approve [of u "text"] classify_clarify [of u "text"]
    classify_unknown [of u "text"] classify_empty [of u "text"]
  by (intro conjI impI; (elim conjE)?; assumption?)

subsection \<open>Example messages\<close>

lemmas classifier_eval =
  match_any_def re_search_def reject_patterns_def approve_patterns_def clarify_patterns_def
  lits_def at_boundary_def basic_unicode_def basic_isword_def basic_isspace_def ascii_lower_def
  ascii_def normalize_def u_strip_def

lemma example_reject_wins:
  "normalize basic_unicode [0x5148, 0x522B, 0x505A, 0x002C, 0x0020, 0x004F, 0x004B] =
     [0x5148, 0x522B, 0x505A, 0x002C, 0x0020, 0x006F, 0x006B]"
  "match_any basic_unicode [0x5148, 0x522B, 0x505A, 0x002C, 0x0020, 0x006F, 0x006B] reject_patterns"
  "match_any basic_unicode [0x5148, 0x522B, 0x505A, 0x002C, 0x0020, 0x006F, 0x006B] approve_patterns"
  by (simp_all add: classifier_eval)

lemma example_approve:
  "normalize basic_unicode (ascii ''  Go   ahead '') = ascii ''go ahead''"
  "\<not> match_any basic_unicode (ascii ''go ahead'') reject_patterns"
  "match_any basic_unicode (ascii ''go ahead'') approve_patterns"
  by (simp_all add: classifier_eval)

lemma example_clarify:
  "normalize basic_unicode (ascii ''Why?'') = ascii ''why?''"
  "\<not> match_any basic_unicode (ascii ''why?'') reject_patterns"
  "\<not> match_any basic_unicode (ascii ''why?'') approve_patterns"
  "match_any basic_unicode (ascii ''why?'') clarify_patterns"
  by (simp_all add: classifier_eval)

lemma example_unknown:
  "normalize basic_unicode (ascii ''hello'') = ascii ''hello''"
  "\<not> match_any basic_unicode (ascii ''hello'') reject_patterns"
  "\<not> match_any basic_unicode (ascii ''hello'') approve_patterns"
  "\<not> match_any basic_unicode (ascii ''hello'') clarify_patterns"
  "ascii ''hello'' \<noteq> []"
  by (simp_all add: classifier_eval)

lemma example_blank:
  "normalize basic_unicode (ascii ''   '') = []"
  by (simp add: classifier_eval)

theorem classify_rules_witness:
  "match_any basic_unicode
     (normalize basic_unicode [0x5148, 0x522B, 0x505A, 0x002C, 0x0020, 0x004F, 0x004B])
     reject_patterns \<and>
   match_any basic_unicode
     (normalize basic_unicode [0x5148, 0x522B, 0x505A, 0x002C, 0x0020, 0x004F, 0x004B])
     approve_patterns \<and>
   classify basic_unicode [0x5148, 0x522B, 0x505A, 0x002C, 0x0020, 0x004F, 0x004B] =
     \<lparr>intent = REJECT, confidence = 0.95, reason = ''matched reject rule'', raw = None\<rparr> \<and>
   classify basic_unicode (ascii ''  Go   ahead '') =
     \<lparr>intent = APPROVE, confidence = 0.95, reason = ''matched approve rule'', raw = None\<rparr> \<and>
   classify basic_unicode (ascii ''Why?'') =
     \<lparr>intent = CLARIFY, confidence = 0.6, reason = ''matched clarify rule'', raw = None\<rparr> \<and>
   classify basic_unicode (ascii ''hello'') =
     \<lparr>intent = UNKNOWN, confidence = 0.2, reason = ''no rule matched'', raw = None\<rparr> \<and>
   classify basic_unicode (ascii ''   '') =
     \<lparr>intent = UNKNOWN, confidence = 0, reason = ''empty message'', raw = None\<rparr>"
proof -
  let ?t = "[0x5148, 0x522B, 0x505A, 0x002C, 0x0020, 0x004F, 0x004B] :: ustr"
  have r: "match_any basic_unicode (normalize basic_unicode ?t) reject_patterns"
    and a: "match_any basic_unicode (normalize basic_unicode ?t) approve_patterns"
    by (simp_all only: example_reject_wins)
  have w1: "classify basic_unicode ?t =
     \<lparr>intent = REJECT, confidence = 0.95, reason = ''matched reject rule'', raw = None\<rparr>"
    using r classify_rules [of basic_unicode ?t] by blast
  have w2: "classify basic_unicode (ascii ''  Go   ahead '') =
     \<lparr>intent = APPROVE, confidence = 0.95, reason = ''matched approve rule'', raw = None\<rparr>"
    using example_approve classify_rules [of basic_unicode "ascii ''  Go   ahead ''"]
    by (simp only:) blast
  have w3: "classify basic_unicode (ascii ''Why?'') =
     \<lparr>intent = CLARIFY, confidence = 0.6, reason = ''matched clarify rule'', raw = None\<rparr>"
    using example_clarify classify_rules [of basic_unicode "ascii ''Why?''"]
    by (simp only:) blast
  have w4: "classify basic_unicode (ascii ''hello'') =
     \<lparr>intent = UNKNOWN, confidence = 0.2, reason = ''no rule matched'', raw = None\<rparr>"
    using example_unknown classify_rules [of basic_unicode "ascii ''hello''"]
    by (simp only:) blast
  have w5: "classify basic_unicode (ascii ''   '') =
     \<lparr>intent = UNKNOWN, confidence = 0, reason = ''empty message'', raw = None\<rparr>"
    using example_blank classify_rules [of basic_unicode "ascii ''   ''"]
    by blast
  from r a w1 w2 w3 w4 w5 show ?thesis by (intro conjI)
qed

text \<open>
  The claim as worded fails for the empty message, and for one of blanks only: no
  pattern matches, and the result is unknown with confidence 0, not 0.2.
\<close>

theorem classify_counterexample:
  "\<not> match_any basic_unicode (normalize basic_unicode (ascii ''   '')) reject_patterns \<and>
   \<not> match_any basic_unicode (normalize basic_unicode (ascii ''   '')) approve_patterns \<and>
   \<not> match_any basic_unicode (normalize basic_unicode (ascii ''   '')) clarify_patterns \<and>
   \<not> spec_unmatched_result (classify basic_unicode (ascii ''   '')) \<and>
   confidence (classify basic_unicode (ascii ''   '')) = 0 \<and>
   \<not> spec_unmatched_result (classify basic_unicode [])"
proof -
  have e: "normalize basic_unicode [] = []" by (simp add: classifier_eval)
  show ?thesis
    by (simp add: example_blank no_match_empty classify_empty e spec_unmatched_result_def)
qed

end
